theory Spec2Isabelle
  imports Complex_Main "HOL-Library.Word"
begin

section \<open>Window.cpp: DisplayMode and the Window base class\<close>

text \<open>
  Modelled from the spec: the declarations of \<^verbatim>\<open>Vec2i\<close> and \<^verbatim>\<open>DisplayMode\<close>
  (Window.h) are missing; the spec gives a display mode as "resolution: (width, height)
  in pixels, refresh: integer Hz". The components are \<^verbatim>\<open>s32\<close> values that the code only
  stores and compares, so they are integers (\<open>fst\<close> is \<^verbatim>\<open>.x\<close>, \<open>snd\<close> is
  \<^verbatim>\<open>.y\<close>); equality of modes is equality of resolution and refresh.
\<close>

type_synonym Vec2i = "int \<times> int"

record DisplayMode =
  resolution :: Vec2i
  refresh :: int

text \<open>\<^verbatim>\<open>bool DisplayMode::operator<(const DisplayMode & o) const\<close>\<close>

definition DisplayMode_less :: "DisplayMode \<Rightarrow> DisplayMode \<Rightarrow> bool" where
  "DisplayMode_less a o' =
     (if fst (resolution a) \<noteq> fst (resolution o') then fst (resolution a) < fst (resolution o')
      else if snd (resolution a) \<noteq> snd (resolution o') then snd (resolution a) < snd (resolution o')
      else refresh a < refresh o')"

text \<open>
  \<^verbatim>\<open>std::sort(m_displayModes.begin(), m_displayModes.end())\<close> orders the vector by
  \<^verbatim>\<open>operator<\<close>; it is modelled by an insertion sort on \<open>DisplayMode_less\<close>.
  \<^verbatim>\<open>std::unique\<close> keeps the first element of every run of adjacent equal elements.
\<close>

fun insert_mode :: "DisplayMode \<Rightarrow> DisplayMode list \<Rightarrow> DisplayMode list" where
  "insert_mode m [] = [m]"
| "insert_mode m (k # ks) = (if DisplayMode_less k m then k # insert_mode m ks else m # k # ks)"

fun std_sort :: "DisplayMode list \<Rightarrow> DisplayMode list" where
  "std_sort [] = []"
| "std_sort (m # ms) = insert_mode m (std_sort ms)"

fun std_unique :: "'a list \<Rightarrow> 'a list" where
  "std_unique [] = []"
| "std_unique [a] = [a]"
| "std_unique (a # b # bs) = (if a = b then std_unique (a # bs) else a # std_unique (b # bs))"

text \<open>
  The enumeration loop of \<^verbatim>\<open>SDL2Window::initializeFramework\<close>: for every display and
  every mode index, \<^verbatim>\<open>SDL_GetDisplayMode\<close> either fails (\<open>None\<close>) or reports
  \<open>(w, h, refresh_rate)\<close>, which is appended to \<^verbatim>\<open>m_displayModes\<close>.
\<close>

type_synonym SDL_DisplayMode = "int \<times> int \<times> int"

fun collectModes :: "SDL_DisplayMode option list \<Rightarrow> DisplayMode list" where
  "collectModes [] = []"
| "collectModes (None # ms) = collectModes ms"
| "collectModes (Some (w, h, r) # ms) = \<lparr>resolution = (w, h), refresh = r\<rparr> # collectModes ms"

definition enumerateDisplayModes :: "SDL_DisplayMode option list list \<Rightarrow> DisplayMode list" where
  "enumerateDisplayModes displays = std_unique (std_sort (concat (map collectModes displays)))"

subsection \<open>Listeners and the callback trace\<close>

text \<open>
  A listener is known to the window by its pointer (\<open>ident\<close>). The only callback
  whose result the window uses is \<^verbatim>\<open>onCloseWindow\<close>; its answer is the field
  \<open>closeAnswer\<close>. Every callback the window invokes is appended to the trace, oldest
  first, so that "the notification fires" is a statement about the trace. The fields of
  \<open>Window\<close> are the members that Window.cpp initializes and assigns.
\<close>

datatype Callback =
    CreateWindow | CloseWindow | DestroyWindow | MoveWindow | ResizeWindow
  | MinimizeWindow | MaximizeWindow | RestoreWindow | ToggleFullscreen
  | WindowGotFocus | WindowLostFocus | PaintWindow | DroppedFile string

record Listener =
  ident :: nat
  closeAnswer :: bool

type_synonym Trace = "(nat \<times> Callback) list"

record Window =
  m_position :: Vec2i
  m_mode :: DisplayMode
  m_minimized :: bool
  m_maximized :: bool
  m_visible :: bool
  m_fullscreen :: bool
  m_focused :: bool
  m_listeners :: "Listener list"
  trace :: Trace

text \<open>\<^verbatim>\<open>Window::Window()\<close>, with the mode of the \<^verbatim>\<open>__vita__\<close> build.\<close>

definition Window_init :: Window where
  "Window_init =
     \<lparr> m_position = (0, 0), m_mode = \<lparr>resolution = (720, 408), refresh = 0\<rparr>,
       m_minimized = False, m_maximized = False, m_visible = False,
       m_fullscreen = False, m_focused = False, m_listeners = [], trace = [] \<rparr>"

definition addListener :: "Listener \<Rightarrow> 'a Window_scheme \<Rightarrow> 'a Window_scheme" where
  "addListener l w = w\<lparr>m_listeners := m_listeners w @ [l]\<rparr>"

text \<open>The loop \<^verbatim>\<open>for(Listener * listener : m_listeners) listener->cb(*this)\<close>.\<close>

definition notifyAll :: "Callback \<Rightarrow> 'a Window_scheme \<Rightarrow> 'a Window_scheme" where
  "notifyAll cb w = w\<lparr>trace := trace w @ map (\<lambda>l. (ident l, cb)) (m_listeners w)\<rparr>"

text \<open>
  \<^verbatim>\<open>Window::onClose\<close>: the loop over the listeners, left by \<^verbatim>\<open>return false\<close> at the
  first listener whose handler answers false.
\<close>

fun onClose_loop :: "Listener list \<Rightarrow> Trace \<Rightarrow> bool \<times> Trace" where
  "onClose_loop [] t = (True, t)"
| "onClose_loop (l # ls) t =
     (let shouldClose = closeAnswer l; t' = t @ [(ident l, CloseWindow)]
      in if \<not> shouldClose then (False, t') else onClose_loop ls t')"

definition onClose :: "'a Window_scheme \<Rightarrow> bool \<times> 'a Window_scheme" where
  "onClose w = (case onClose_loop (m_listeners w) (trace w) of (r, t) \<Rightarrow> (r, w\<lparr>trace := t\<rparr>))"

definition onCreate :: "'a Window_scheme \<Rightarrow> 'a Window_scheme" where
  "onCreate w = notifyAll CreateWindow w"

definition onDestroy :: "'a Window_scheme \<Rightarrow> 'a Window_scheme" where
  "onDestroy w = notifyAll DestroyWindow w"

definition onMove :: "int \<Rightarrow> int \<Rightarrow> 'a Window_scheme \<Rightarrow> 'a Window_scheme" where
  "onMove px py w = notifyAll MoveWindow (w\<lparr>m_position := (px, py)\<rparr>)"

definition onResize :: "Vec2i \<Rightarrow> 'a Window_scheme \<Rightarrow> 'a Window_scheme" where
  "onResize size' w = notifyAll ResizeWindow (w\<lparr>m_mode := (m_mode w)\<lparr>resolution := size'\<rparr>\<rparr>)"

definition onMinimize :: "'a Window_scheme \<Rightarrow> 'a Window_scheme" where
  "onMinimize w = notifyAll MinimizeWindow (w\<lparr>m_minimized := True, m_maximized := False\<rparr>)"

definition onMaximize :: "'a Window_scheme \<Rightarrow> 'a Window_scheme" where
  "onMaximize w = notifyAll MaximizeWindow (w\<lparr>m_minimized := False, m_maximized := True\<rparr>)"

definition onRestore :: "'a Window_scheme \<Rightarrow> 'a Window_scheme" where
  "onRestore w = notifyAll RestoreWindow (w\<lparr>m_minimized := False, m_maximized := False\<rparr>)"

definition onShow :: "bool \<Rightarrow> 'a Window_scheme \<Rightarrow> 'a Window_scheme" where
  "onShow isVisible w = w\<lparr>m_visible := isVisible\<rparr>"

definition onToggleFullscreen :: "bool \<Rightarrow> 'a Window_scheme \<Rightarrow> 'a Window_scheme" where
  "onToggleFullscreen fullscreen w = notifyAll ToggleFullscreen (w\<lparr>m_fullscreen := fullscreen\<rparr>)"

definition onFocus :: "bool \<Rightarrow> 'a Window_scheme \<Rightarrow> 'a Window_scheme" where
  "onFocus hasFocus w =
     (if hasFocus then notifyAll WindowGotFocus (w\<lparr>m_focused := hasFocus\<rparr>)
      else notifyAll WindowLostFocus (w\<lparr>m_focused := hasFocus\<rparr>))"

definition onPaint :: "'a Window_scheme \<Rightarrow> 'a Window_scheme" where
  "onPaint w = notifyAll PaintWindow w"

definition onDroppedFile :: "string \<Rightarrow> 'a Window_scheme \<Rightarrow> 'a Window_scheme" where
  "onDroppedFile path w = notifyAll (DroppedFile path) w"

text \<open>The three mutators of the minimized and maximized flags, as a sequence of calls.\<close>

datatype FlagEvent = Minimize | Maximize | Restore

fun applyFlagEvent :: "FlagEvent \<Rightarrow> 'a Window_scheme \<Rightarrow> 'a Window_scheme" where
  "applyFlagEvent Minimize w = onMinimize w"
| "applyFlagEvent Maximize w = onMaximize w"
| "applyFlagEvent Restore w = onRestore w"

fun applyFlagEvents :: "FlagEvent list \<Rightarrow> 'a Window_scheme \<Rightarrow> 'a Window_scheme" where
  "applyFlagEvents [] w = w"
| "applyFlagEvents (e # es) w = applyFlagEvents es (applyFlagEvent e w)"

text \<open>The trace entries of one callback delivered to each of a list of listeners.\<close>

definition closeCalls :: "Listener list \<Rightarrow> Trace" where
  "closeCalls ls = map (\<lambda>l. (ident l, CloseWindow)) ls"

definition destroyCalls :: "Listener list \<Rightarrow> Trace" where
  "destroyCalls ls = map (\<lambda>l. (ident l, DestroyWindow)) ls"

definition resizeCalls :: "Listener list \<Rightarrow> Trace" where
  "resizeCalls ls = map (\<lambda>l. (ident l, ResizeWindow)) ls"

section \<open>OpenGLUtil.cpp: version and extension overrides\<close>

text \<open>
  \<^verbatim>\<open>m_version\<close> and \<^verbatim>\<open>m_versionOverride\<close> are 32-bit; every comparison in the code
  is against a \<^verbatim>\<open>u32\<close> and therefore unsigned. The log keeps the lines written through
  \<^verbatim>\<open>LogWarning\<close> by the parser.
\<close>

datatype LogLine = Warning string

record OpenGLInfo =
  m_isES :: bool
  m_version :: "32 word"
  m_versionOverride :: "32 word"
  m_extensionOverrides :: "string list"
  warnings :: "LogLine list"

definition s32_max :: "32 word" where
  "s32_max = 2147483647"

definition u32_max_div_10 :: int where
  "u32_max_div_10 = (2 ^ 32 - 1) div 10"

text \<open>\<^verbatim>\<open>boost::starts_with(token, prefix)\<close>\<close>

definition starts_with :: "string \<Rightarrow> string \<Rightarrow> bool" where
  "starts_with s p = (take (length p) s = p)"

text \<open>
  \<^verbatim>\<open>token.find(c, offset)\<close>: the index of the first \<open>c\<close> at or after \<open>offset\<close>,
  \<open>None\<close> for \<^verbatim>\<open>npos\<close>.
\<close>

fun find_from :: "char \<Rightarrow> nat \<Rightarrow> nat \<Rightarrow> string \<Rightarrow> nat option" where
  "find_from c i offset [] = None"
| "find_from c i offset (d # ds) =
     (if offset \<le> i \<and> d = c then Some i else find_from c (Suc i) offset ds)"

definition find_char :: "string \<Rightarrow> char \<Rightarrow> nat \<Rightarrow> nat option" where
  "find_char token c offset = find_from c 0 offset token"

text \<open>
  Modelled from the spec: \<^verbatim>\<open>util::splitIgnoreEmpty(string, separators)\<close> (util/String.h)
  is missing; the spec has the parser work on the "token stream" of the string. The
  tokens are the maximal runs of characters that are not separators, in order, none of
  them empty.
\<close>

fun split_acc :: "string \<Rightarrow> string \<Rightarrow> string \<Rightarrow> string list" where
  "split_acc seps cur [] = (if cur = [] then [] else [cur])"
| "split_acc seps cur (c # cs) =
     (if c \<in> set seps then (if cur = [] then split_acc seps [] cs else cur # split_acc seps [] cs)
      else split_acc seps (cur @ [c]) cs)"

definition splitIgnoreEmpty :: "string \<Rightarrow> string \<Rightarrow> string list" where
  "splitIgnoreEmpty s seps = split_acc seps [] s"

definition override_separators :: string where
  "override_separators = [CHR '' '', CHR 0x09, CHR 0x0D, CHR 0x0A, CHR '','', CHR '';'', CHR '':'']"

text \<open>
  \<^verbatim>\<open>util::toInt\<close> (util/Number.h) is missing as well; the parser takes it as the
  parameter \<open>toInt\<close>, which answers \<open>None\<close> where \<^verbatim>\<open>std::optional\<close> is empty.
\<close>

text \<open>
  Modelled from the spec: one function that can stand for \<^verbatim>\<open>util::toInt\<close>, used to run
  the parser on concrete strings. The spec writes versions as "MAJOR.MINOR", "bare
  integer" and "single-digit MAJOR": an optional minus sign and at least one decimal
  digit, with a value that fits \<^verbatim>\<open>s32\<close>.
\<close>

definition digit_val :: "char \<Rightarrow> int option" where
  "digit_val c =
     (if c = CHR ''0'' then Some 0 else if c = CHR ''1'' then Some 1
      else if c = CHR ''2'' then Some 2 else if c = CHR ''3'' then Some 3
      else if c = CHR ''4'' then Some 4 else if c = CHR ''5'' then Some 5
      else if c = CHR ''6'' then Some 6 else if c = CHR ''7'' then Some 7
      else if c = CHR ''8'' then Some 8 else if c = CHR ''9'' then Some 9 else None)"

fun digits_val :: "int \<Rightarrow> string \<Rightarrow> int option" where
  "digits_val acc [] = Some acc"
| "digits_val acc (c # cs) =
     (case digit_val c of None \<Rightarrow> None | Some d \<Rightarrow> digits_val (acc * 10 + d) cs)"

definition decimalToInt :: "string \<Rightarrow> int option" where
  "decimalToInt s =
     (let neg = (s \<noteq> [] \<and> hd s = CHR ''-''); ds = (if neg then tl s else s)
      in if ds = [] then None
         else case digits_val 0 ds of
             None \<Rightarrow> None
           | Some n \<Rightarrow> (let v = (if neg then - n else n)
                        in if - (2 ^ 31) \<le> v \<and> v < 2 ^ 31 then Some v else None))"

definition value_or :: "'a option \<Rightarrow> 'a \<Rightarrow> 'a" where
  "value_or v d = (case v of None \<Rightarrow> d | Some a \<Rightarrow> a)"

text \<open>
  The \<^verbatim>\<open>try\<close> block of \<^verbatim>\<open>OpenGLInfo::parseOverrideConfig\<close> up to the assignment of
  \<^verbatim>\<open>m_versionOverride\<close>: \<open>Some v\<close> is the value assigned, \<open>None\<close> is
  \<^verbatim>\<open>throw std::exception()\<close>. The \<^verbatim>\<open>u32\<close> arithmetic wraps.
\<close>

definition parseVersionToken :: "(string \<Rightarrow> int option) \<Rightarrow> 32 word \<Rightarrow> string \<Rightarrow> 32 word option" where
  "parseVersionToken toInt version token =
     (let offset = (if starts_with token ''GL'' then 2 else 0 :: nat);
          dot = find_char token CHR ''.'' offset
      in if token = ''+*'' \<or> token = ''+'' then Some s32_max
         else if token = ''-*'' \<or> token = ''-'' then Some version
         else case dot of
             Some d \<Rightarrow>
               (let major = value_or (toInt (take (d - offset) (drop offset token))) (- 1);
                    minor = value_or (toInt (drop (d + 1) token)) (- 1)
                in if minor < 0 \<or> minor > 10 \<or> major < 0 \<or> major > u32_max_div_10 then None
                   else Some (word_of_int major * 10 + word_of_int minor))
           | None \<Rightarrow>
               (if length token - offset > 1 then
                  (let version' = value_or (toInt (drop offset token)) (- 1)
                   in if version' < 0 then None else Some (word_of_int version'))
                else
                  (let major = value_or (toInt (drop offset token)) (- 1)
                   in if major < 0 \<or> major > u32_max_div_10 then None
                      else Some (word_of_int major * 10))))"

definition quoted :: "string \<Rightarrow> string" where
  "quoted token = [CHR 0x27] @ token @ [CHR 0x27]"

definition isExtensionToken :: "string \<Rightarrow> bool" where
  "isExtensionToken token = (starts_with token ''+GL_'' \<or> starts_with token ''-GL_'')"

text \<open>
  One iteration of the token loop. The state is the local \<^verbatim>\<open>first\<close> and the object.
\<close>

definition parseToken :: "(string \<Rightarrow> int option) \<Rightarrow> string \<Rightarrow> bool \<times> OpenGLInfo \<Rightarrow> bool \<times> OpenGLInfo" where
  "parseToken toInt token st =
     (case st of (first, gl) \<Rightarrow>
        if isExtensionToken token then
          (False, gl\<lparr>m_extensionOverrides := m_extensionOverrides gl @ [token]\<rparr>)
        else
          (case parseVersionToken toInt (m_version gl) token of
             Some v \<Rightarrow>
               (let gl1 = gl\<lparr>m_versionOverride := v\<rparr>;
                    gl2 = (if \<not> first
                           then gl1\<lparr>warnings := warnings gl1 @
                                  [Warning (''Ignoring OpenGL feature overrides before '' @ quoted token)]\<rparr>
                           else gl1)
                in (False, gl2\<lparr>m_extensionOverrides := []\<rparr>))
           | None \<Rightarrow>
               (first, gl\<lparr>warnings := warnings gl @
                                  [Warning (''Invalid OpenGL feature override '' @ quoted token)]\<rparr>)))"

fun parseTokens :: "(string \<Rightarrow> int option) \<Rightarrow> string list \<Rightarrow> bool \<times> OpenGLInfo \<Rightarrow> bool \<times> OpenGLInfo" where
  "parseTokens toInt [] st = st"
| "parseTokens toInt (token # rest) st = parseTokens toInt rest (parseToken toInt token st)"

definition parseOverrideConfig :: "(string \<Rightarrow> int option) \<Rightarrow> string \<Rightarrow> OpenGLInfo \<Rightarrow> OpenGLInfo" where
  "parseOverrideConfig toInt string gl =
     snd (parseTokens toInt (splitIgnoreEmpty string override_separators) (True, gl))"

text \<open>
  \<^verbatim>\<open>OpenGLInfo::has\<close> as compiled without \<^verbatim>\<open>__vita__\<close>, the definition that consults
  the overrides. \<open>supported\<close> is the native query (\<^verbatim>\<open>epoxy_has_gl_extension\<close> or
  \<^verbatim>\<open>glewIsSupported\<close>). The overrides are scanned
  from the most recent; an empty entry fails \<^verbatim>\<open>arx_assert(!override.empty())\<close>, and
  \<^verbatim>\<open>substr(1)\<close> of it throws, so the result is then \<open>None\<close>. The \<^verbatim>\<open>LogInfo\<close> lines of
  \<^verbatim>\<open>has\<close> are not part of the result.
\<close>

fun scanOverrides :: "string list \<Rightarrow> string \<Rightarrow> bool option option" where
  "scanOverrides [] extension = Some None"
| "scanOverrides ([] # rest) extension = None"
| "scanOverrides ((c # name) # rest) extension =
     (if name = extension then Some (Some (c = CHR ''+'')) else scanOverrides rest extension)"

definition has :: "(string \<Rightarrow> bool) \<Rightarrow> OpenGLInfo \<Rightarrow> string \<Rightarrow> 32 word \<Rightarrow> bool option" where
  "has supported gl extension version =
     (if m_version gl < version \<and> \<not> supported extension then Some False
      else case scanOverrides (rev (m_extensionOverrides gl)) extension of
          None \<Rightarrow> None
        | Some (Some forced) \<Rightarrow> Some forced
        | Some None \<Rightarrow> Some (m_versionOverride gl \<ge> version))"

text \<open>A driver that reports no extension at all.\<close>

definition noExtensions :: "string \<Rightarrow> bool" where
  "noExtensions extension = False"

text \<open>A driver that reports every extension.\<close>

definition allExtensions :: "string \<Rightarrow> bool" where
  "allExtensions extension = True"

text \<open>The line logged by the \<^verbatim>\<open>catch\<close> block for a token.\<close>

definition invalidLine :: "string \<Rightarrow> LogLine" where
  "invalidLine token = Warning (''Invalid OpenGL feature override '' @ quoted token)"

text \<open>
  Two parser states agree on everything but the log: the local \<^verbatim>\<open>first\<close>, the
  versions and the list of extension overrides.
\<close>

definition sameSettings :: "bool \<times> OpenGLInfo \<Rightarrow> bool \<times> OpenGLInfo \<Rightarrow> bool" where
  "sameSettings s t =
     (fst s = fst t \<and> m_isES (snd s) = m_isES (snd t) \<and> m_version (snd s) = m_version (snd t)
      \<and> m_versionOverride (snd s) = m_versionOverride (snd t)
      \<and> m_extensionOverrides (snd s) = m_extensionOverrides (snd t))"

text \<open>
  An object as the constructor leaves it on an OpenGL 2.1 driver with a small maximum
  texture size, before the configured overrides are parsed.
\<close>

definition example_gl :: OpenGLInfo where
  "example_gl =
     \<lparr>m_isES = False, m_version = 21, m_versionOverride = s32_max,
      m_extensionOverrides = [''-GL_ARB_texture_non_power_of_two''], warnings = []\<rparr>"

text \<open>
  The same driver with sample shading forced on; with it forced off and then on, under a
  version override of 2.1; and with it forced on and then off.
\<close>

definition example_forced_on :: OpenGLInfo where
  "example_forced_on = example_gl\<lparr>m_extensionOverrides := [''+GL_ARB_sample_shading'']\<rparr>"

definition example_overridden :: OpenGLInfo where
  "example_overridden =
     example_gl\<lparr>m_versionOverride := 21,
       m_extensionOverrides := [''-GL_ARB_sample_shading'', ''+GL_ARB_sample_shading'',
                                ''-GL_ARB_draw_elements_base_vertex'']\<rparr>"

definition example_disabled :: OpenGLInfo where
  "example_disabled =
     example_gl\<lparr>m_extensionOverrides := [''+GL_ARB_sample_shading'', ''-GL_ARB_sample_shading'',
                                           ''-GL_ARB_draw_elements_base_vertex'']\<rparr>"

section \<open>OpenGLRenderer.cpp: the render state cache\<close>

datatype BlendingFactor =
    BlendZero | BlendOne | BlendSrcColor | BlendSrcAlpha | BlendInvSrcColor | BlendInvSrcAlpha
  | BlendSrcAlphaSaturate | BlendDstColor | BlendDstAlpha | BlendInvDstColor | BlendInvDstAlpha

text \<open>
  Modelled from the spec: the declaration of \<^verbatim>\<open>RenderState\<close> (Renderer.h) is missing;
  the spec lists its fields as "cull enabled, fog enabled, depth-test enabled, depth-write
  enabled, depth-offset (int bias units), blend (src-factor, dst-factor), alpha-cutout
  enabled", which are the ones \<^verbatim>\<open>flushState\<close> reads through the getters, and compares
  two states "bitwise": \<^verbatim>\<open>operator!=\<close> is inequality of some field.
\<close>

record RenderState =
  getCull :: bool
  getFog :: bool
  getAlphaCutout :: bool
  getDepthTest :: bool
  getDepthWrite :: bool
  getDepthOffset :: int
  getBlendSrc :: BlendingFactor
  getBlendDst :: BlendingFactor

datatype GLenum =
    GL_ZERO | GL_ONE | GL_SRC_COLOR | GL_SRC_ALPHA | GL_ONE_MINUS_SRC_COLOR
  | GL_ONE_MINUS_SRC_ALPHA | GL_SRC_ALPHA_SATURATE | GL_DST_COLOR | GL_DST_ALPHA
  | GL_ONE_MINUS_DST_COLOR | GL_ONE_MINUS_DST_ALPHA
  | GL_CULL_FACE | GL_FOG | GL_SAMPLE_SHADING_ARB | GL_SAMPLE_ALPHA_TO_COVERAGE
  | GL_ALWAYS | GL_GREATER | GL_LEQUAL

fun arxToGlBlendFactor :: "BlendingFactor \<Rightarrow> GLenum" where
  "arxToGlBlendFactor BlendZero = GL_ZERO"
| "arxToGlBlendFactor BlendOne = GL_ONE"
| "arxToGlBlendFactor BlendSrcColor = GL_SRC_COLOR"
| "arxToGlBlendFactor BlendSrcAlpha = GL_SRC_ALPHA"
| "arxToGlBlendFactor BlendInvSrcColor = GL_ONE_MINUS_SRC_COLOR"
| "arxToGlBlendFactor BlendInvSrcAlpha = GL_ONE_MINUS_SRC_ALPHA"
| "arxToGlBlendFactor BlendSrcAlphaSaturate = GL_SRC_ALPHA_SATURATE"
| "arxToGlBlendFactor BlendDstColor = GL_DST_COLOR"
| "arxToGlBlendFactor BlendDstAlpha = GL_DST_ALPHA"
| "arxToGlBlendFactor BlendInvDstColor = GL_ONE_MINUS_DST_COLOR"
| "arxToGlBlendFactor BlendInvDstAlpha = GL_ONE_MINUS_DST_ALPHA"

text \<open>
  The calls that reach the GPU, in the order issued. The alpha reference values
  \<open>-1\<close>, \<open>0\<close> and \<open>0.5\<close> and the negated depth offset are exact in \<^verbatim>\<open>float\<close>, so
  they are written as reals.
\<close>

datatype GLCall =
    glEnable GLenum | glDisable GLenum
  | glAlphaFunc GLenum real | glBlendFunc GLenum GLenum
  | glDepthFunc GLenum | glDepthMask bool | glPolygonOffset real real
  | TextureStage_apply nat

datatype TestMode = TestSS | TestA2C | TestStrict | TestConservative | TestNone

text \<open>
  The enumeration \<^verbatim>\<open>Renderer::AlphaCutoutAntialising\<close> is declared in the missing
  Renderer.h. \<^verbatim>\<open>config.video.alphaCutoutAntialiasing\<close> is clamped to \<open>0..2\<close> when the
  configuration is read, so it has three values; \<^verbatim>\<open>flushState\<close> compares it with
  \<^verbatim>\<open>FuzzyAlphaCutoutAA\<close> and \<^verbatim>\<open>CrispAlphaCutoutAA\<close>.
\<close>

datatype AlphaCutoutAntialising = NoAlphaCutoutAA | FuzzyAlphaCutoutAA | CrispAlphaCutoutAA

record OpenGLRenderer =
  m_state :: RenderState
  m_glstate :: RenderState
  m_glsampleShading :: bool
  m_glalphaToCoverage :: bool
  m_glalphaFunc :: real
  m_glblendSrc :: GLenum
  m_glblendDst :: GLenum
  m_hasMSAA :: bool
  m_hasSampleShading :: bool
  maxTextureStage :: nat
  alphaCutoutAntialiasing :: AlphaCutoutAntialising
  gl_calls :: "GLCall list"

definition emit :: "GLCall \<Rightarrow> OpenGLRenderer \<Rightarrow> OpenGLRenderer" where
  "emit c r = r\<lparr>gl_calls := gl_calls r @ [c]\<rparr>"

definition useSS :: "OpenGLRenderer \<Rightarrow> bool" where
  "useSS r = (m_hasMSAA r \<and> m_hasSampleShading r \<and> alphaCutoutAntialiasing r = CrispAlphaCutoutAA)"

definition useA2C :: "OpenGLRenderer \<Rightarrow> bool" where
  "useA2C r = (m_hasMSAA r \<and> alphaCutoutAntialiasing r = FuzzyAlphaCutoutAA)"

text \<open>
  The choice of \<^verbatim>\<open>alphaTest\<close> and of the source factor handed to \<^verbatim>\<open>glBlendFunc\<close>,
  from the desired state \<^verbatim>\<open>m_state\<close>.
\<close>

definition alphaTestMode :: "OpenGLRenderer \<Rightarrow> TestMode \<times> BlendingFactor" where
  "alphaTestMode r =
     (let blendSrc = getBlendSrc (m_state r); blendDst = getBlendDst (m_state r)
      in if getAlphaCutout (m_state r) then
           (if blendSrc = BlendOne \<and> blendDst = BlendZero then
              (if useSS r then TestSS else if useA2C r then TestA2C else TestStrict, blendSrc)
            else if blendSrc = BlendOne \<and> blendDst = BlendOne then
              (TestConservative, BlendSrcAlpha)
            else if blendSrc = BlendSrcAlpha \<or> blendDst = BlendInvSrcAlpha then
              (TestConservative, blendSrc)
            else
              (if useSS r then TestSS else TestStrict, blendSrc))
         else (TestNone, blendSrc))"

text \<open>
  \<^verbatim>\<open>arx_assert_msg(blendSrc != BlendInvSrcAlpha && blendDst != BlendSrcAlpha, ...)\<close>,
  reached only with alpha cutout desired.
\<close>

definition blendAssertion :: "OpenGLRenderer \<Rightarrow> bool" where
  "blendAssertion r =
     (getAlphaCutout (m_state r) \<longrightarrow>
        getBlendSrc (m_state r) \<noteq> BlendInvSrcAlpha \<and> getBlendDst (m_state r) \<noteq> BlendSrcAlpha)"

definition flushCull :: "OpenGLRenderer \<Rightarrow> OpenGLRenderer" where
  "flushCull r =
     (if getCull (m_glstate r) \<noteq> getCull (m_state r)
      then (if getCull (m_state r) then emit (glEnable GL_CULL_FACE) r
            else emit (glDisable GL_CULL_FACE) r)
      else r)"

definition flushFog :: "OpenGLRenderer \<Rightarrow> OpenGLRenderer" where
  "flushFog r =
     (if getFog (m_glstate r) \<noteq> getFog (m_state r)
      then (if getFog (m_state r) then emit (glEnable GL_FOG) r else emit (glDisable GL_FOG) r)
      else r)"

definition applySampleShading :: "TestMode \<Rightarrow> OpenGLRenderer \<Rightarrow> OpenGLRenderer" where
  "applySampleShading alphaTest r =
     (if m_glsampleShading r \<and> alphaTest \<noteq> TestSS
      then (emit (glDisable GL_SAMPLE_SHADING_ARB) r)\<lparr>m_glsampleShading := False\<rparr>
      else if \<not> m_glsampleShading r \<and> alphaTest = TestSS
      then (emit (glEnable GL_SAMPLE_SHADING_ARB) r)\<lparr>m_glsampleShading := True\<rparr>
      else r)"

definition applyAlphaToCoverage :: "TestMode \<Rightarrow> OpenGLRenderer \<Rightarrow> OpenGLRenderer" where
  "applyAlphaToCoverage alphaTest r =
     (if m_glalphaToCoverage r \<and> alphaTest \<noteq> TestA2C
      then (emit (glDisable GL_SAMPLE_ALPHA_TO_COVERAGE) r)\<lparr>m_glalphaToCoverage := False\<rparr>
      else if \<not> m_glalphaToCoverage r \<and> alphaTest = TestA2C
      then (emit (glEnable GL_SAMPLE_ALPHA_TO_COVERAGE) r)\<lparr>m_glalphaToCoverage := True\<rparr>
      else r)"

definition applyAlphaFunc :: "TestMode \<Rightarrow> OpenGLRenderer \<Rightarrow> OpenGLRenderer" where
  "applyAlphaFunc alphaTest r =
     (if alphaTest = TestNone then
        (if m_glalphaFunc r \<ge> 0
         then (emit (glAlphaFunc GL_ALWAYS 0) r)\<lparr>m_glalphaFunc := - 1\<rparr> else r)
      else if alphaTest = TestConservative \<or> alphaTest = TestA2C then
        (if m_glalphaFunc r \<noteq> 0
         then (emit (glAlphaFunc GL_GREATER 0) r)\<lparr>m_glalphaFunc := 0\<rparr> else r)
      else
        (if m_glalphaFunc r \<noteq> 1 / 2
         then (emit (glAlphaFunc GL_GREATER (1 / 2)) r)\<lparr>m_glalphaFunc := 1 / 2\<rparr> else r))"

definition applyBlendFunc :: "BlendingFactor \<Rightarrow> BlendingFactor \<Rightarrow> OpenGLRenderer \<Rightarrow> OpenGLRenderer" where
  "applyBlendFunc blendSrc blendDst r =
     (let glblendSrc = arxToGlBlendFactor blendSrc; glblendDst = arxToGlBlendFactor blendDst
      in if m_glblendSrc r \<noteq> glblendSrc \<or> m_glblendDst r \<noteq> glblendDst
         then (emit (glBlendFunc glblendSrc glblendDst) r)
                \<lparr>m_glblendSrc := glblendSrc, m_glblendDst := glblendDst\<rparr>
         else r)"

text \<open>
  The block guarded by a change of the blend factors or of the alpha cutout flag.
  \<open>debug\<close> says whether \<^verbatim>\<open>arx_assert_msg\<close> is compiled in; a failed assertion ends
  the program, which is the result \<open>None\<close>.
\<close>

definition flushBlend :: "bool \<Rightarrow> OpenGLRenderer \<Rightarrow> OpenGLRenderer option" where
  "flushBlend debug r =
     (if getBlendSrc (m_glstate r) \<noteq> getBlendSrc (m_state r)
         \<or> getBlendDst (m_glstate r) \<noteq> getBlendDst (m_state r)
         \<or> getAlphaCutout (m_glstate r) \<noteq> getAlphaCutout (m_state r)
      then
        (if debug \<and> \<not> blendAssertion r then None
         else (case alphaTestMode r of (alphaTest, blendSrc) \<Rightarrow>
                 Some (applyBlendFunc blendSrc (getBlendDst (m_state r))
                        (applyAlphaFunc alphaTest
                          (applyAlphaToCoverage alphaTest
                            (applySampleShading alphaTest r))))))
      else Some r)"

definition flushDepthTest :: "OpenGLRenderer \<Rightarrow> OpenGLRenderer" where
  "flushDepthTest r =
     (if getDepthTest (m_glstate r) \<noteq> getDepthTest (m_state r)
      then emit (glDepthFunc (if getDepthTest (m_state r) then GL_LEQUAL else GL_ALWAYS)) r
      else r)"

definition flushDepthWrite :: "OpenGLRenderer \<Rightarrow> OpenGLRenderer" where
  "flushDepthWrite r =
     (if getDepthWrite (m_glstate r) \<noteq> getDepthWrite (m_state r)
      then emit (glDepthMask (getDepthWrite (m_state r))) r
      else r)"

definition flushDepthOffset :: "OpenGLRenderer \<Rightarrow> OpenGLRenderer" where
  "flushDepthOffset r =
     (if getDepthOffset (m_glstate r) \<noteq> getDepthOffset (m_state r)
      then (let depthOffset = - real_of_int (getDepthOffset (m_state r))
            in emit (glPolygonOffset depthOffset depthOffset) r)
      else r)"

text \<open>\<^verbatim>\<open>for(size_t i = 0; i <= maxTextureStage; i++) GetTextureStage(i)->apply();\<close>\<close>

definition applyTextureStages :: "OpenGLRenderer \<Rightarrow> OpenGLRenderer" where
  "applyTextureStages r =
     r\<lparr>gl_calls := gl_calls r @ map TextureStage_apply [0 ..< Suc (maxTextureStage r)]\<rparr>"

definition flushState :: "bool \<Rightarrow> OpenGLRenderer \<Rightarrow> OpenGLRenderer option" where
  "flushState debug r =
     (if m_glstate r \<noteq> m_state r then
        (case flushBlend debug (flushFog (flushCull r)) of
           None \<Rightarrow> None
         | Some r1 \<Rightarrow>
             Some (applyTextureStages
                    ((flushDepthOffset (flushDepthWrite (flushDepthTest r1)))
                       \<lparr>m_glstate := m_state r\<rparr>)))
      else Some (applyTextureStages r))"

text \<open>The calls that change pipeline state: all but the texture stage applications.\<close>

fun isStateCall :: "GLCall \<Rightarrow> bool" where
  "isStateCall (TextureStage_apply i) = False"
| "isStateCall c = True"

text \<open>The guard of the block that chooses the test mode.\<close>

definition blendPairChanged :: "OpenGLRenderer \<Rightarrow> bool" where
  "blendPairChanged r =
     (getBlendSrc (m_glstate r) \<noteq> getBlendSrc (m_state r)
      \<or> getBlendDst (m_glstate r) \<noteq> getBlendDst (m_state r)
      \<or> getAlphaCutout (m_glstate r) \<noteq> getAlphaCutout (m_state r))"

text \<open>
  The selection rule as the specification words it, for a desired state with alpha
  cutout: conservative when the blend pair incorporates source alpha, otherwise sample
  shading if available with MSAA active and configured, otherwise alpha to coverage if
  MSAA is active and configured, otherwise the plain alpha threshold.
\<close>

definition spec_testMode :: "OpenGLRenderer \<Rightarrow> TestMode" where
  "spec_testMode r =
     (if getBlendSrc (m_state r) = BlendSrcAlpha \<or> getBlendDst (m_state r) = BlendInvSrcAlpha
      then TestConservative
      else if m_hasSampleShading r \<and> m_hasMSAA r \<and> alphaCutoutAntialiasing r = CrispAlphaCutoutAA
      then TestSS
      else if m_hasMSAA r \<and> alphaCutoutAntialiasing r = FuzzyAlphaCutoutAA then TestA2C
      else TestStrict)"

text \<open>
  The rule with blending taken into account: alpha to coverage is a candidate only for
  the pair (one, zero), that is without blending; the additive pair (one, one) is
  conservative like the pairs that use source alpha.
\<close>

definition amended_testMode :: "OpenGLRenderer \<Rightarrow> TestMode" where
  "amended_testMode r =
     (let sampleShading = (m_hasSampleShading r \<and> m_hasMSAA r
                            \<and> alphaCutoutAntialiasing r = CrispAlphaCutoutAA);
          alphaToCoverage = (m_hasMSAA r \<and> alphaCutoutAntialiasing r = FuzzyAlphaCutoutAA);
          src = getBlendSrc (m_state r); dst = getBlendDst (m_state r)
      in if (src, dst) = (BlendOne, BlendZero)
         then (if sampleShading then TestSS else if alphaToCoverage then TestA2C else TestStrict)
         else if (src, dst) = (BlendOne, BlendOne) \<or> src = BlendSrcAlpha \<or> dst = BlendInvSrcAlpha
         then TestConservative
         else (if sampleShading then TestSS else TestStrict))"

text \<open>
  The applied state after \<^verbatim>\<open>reinit\<close>, and a renderer with MSAA and fuzzy cutout
  antialiasing whose desired state asks for an alpha cutout under multiplicative
  blending; \<open>example_flushed\<close> is that renderer after one flush.
\<close>

definition reinit_state :: RenderState where
  "reinit_state =
     \<lparr>getCull = False, getFog = False, getAlphaCutout = False, getDepthTest = False,
      getDepthWrite = True, getDepthOffset = 0, getBlendSrc = BlendZero, getBlendDst = BlendOne\<rparr>"

definition example_desired :: RenderState where
  "example_desired =
     \<lparr>getCull = True, getFog = False, getAlphaCutout = True, getDepthTest = True,
      getDepthWrite = True, getDepthOffset = 2, getBlendSrc = BlendDstColor, getBlendDst = BlendOne\<rparr>"

definition example_renderer :: OpenGLRenderer where
  "example_renderer =
     \<lparr>m_state = example_desired, m_glstate = reinit_state,
      m_glsampleShading = False, m_glalphaToCoverage = False, m_glalphaFunc = - 1,
      m_glblendSrc = GL_ONE, m_glblendDst = GL_ZERO, m_hasMSAA = True,
      m_hasSampleShading = False, maxTextureStage = 1,
      alphaCutoutAntialiasing = FuzzyAlphaCutoutAA, gl_calls = []\<rparr>"

definition example_flushed :: OpenGLRenderer where
  "example_flushed =
     \<lparr>m_state = example_desired, m_glstate = example_desired,
      m_glsampleShading = False, m_glalphaToCoverage = False, m_glalphaFunc = 1 / 2,
      m_glblendSrc = GL_DST_COLOR, m_glblendDst = GL_ONE, m_hasMSAA = True,
      m_hasSampleShading = False, maxTextureStage = 1,
      alphaCutoutAntialiasing = FuzzyAlphaCutoutAA,
      gl_calls = [glEnable GL_CULL_FACE, glAlphaFunc GL_GREATER (1 / 2),
                  glBlendFunc GL_DST_COLOR GL_ONE, glDepthFunc GL_LEQUAL,
                  glPolygonOffset (- 2) (- 2), TextureStage_apply 0, TextureStage_apply 1]\<rparr>"

section \<open>ArxGame::doFrame: the frame rate cap\<close>

text \<open>
  \<^verbatim>\<open>PlatformInstant\<close> and \<^verbatim>\<open>PlatformDuration\<close> count whole microseconds in 64 bits.
  The accumulated delta never leaves \<open>[-10^6, 10^6]\<close> and instants are clock readings,
  so no operation below comes near the 64-bit range; the values are integers.
\<close>

record VideoConfig =
  fpsLimit :: int
  vsync :: int

record FrameTimer =
  m_frameStart :: int
  m_frameDelta :: int
  slept :: "int list"

text \<open>
  Modelled from the spec: \<^verbatim>\<open>arx::clamp\<close> is not among the sources; the spec says the
  accumulated difference is "clamped to [-target, +target]".
\<close>

definition arx_clamp :: "int \<Rightarrow> int \<Rightarrow> int \<Rightarrow> int" where
  "arx_clamp v lo hi = (if v < lo then lo else if hi < v then hi else v)"

text \<open>
  \<open>displayRefresh\<close> is \<^verbatim>\<open>m_MainWindow->getDisplayMode().refresh\<close>. The divisor is at
  least 1, and C++ division of positive integers rounds as \<open>div\<close> does.
\<close>

definition targetFps :: "VideoConfig \<Rightarrow> int \<Rightarrow> int" where
  "targetFps cfg displayRefresh =
     (if fpsLimit cfg \<le> 0 then
        (let t1 = (if displayRefresh \<le> 0 then 60 else displayRefresh)
         in if vsync cfg \<noteq> 0 then t1 + 1 else t1)
      else fpsLimit cfg)"

definition targetDuration :: "VideoConfig \<Rightarrow> int \<Rightarrow> int" where
  "targetDuration cfg displayRefresh = 1000000 div targetFps cfg displayRefresh"

text \<open>
  The first block of \<^verbatim>\<open>ArxGame::doFrame\<close>; \<open>now\<close> is \<^verbatim>\<open>platform::getTime()\<close>.
  A call of \<^verbatim>\<open>Thread::sleep\<close> appends its duration to \<open>slept\<close>.
\<close>

definition limitFrameRate :: "VideoConfig \<Rightarrow> bool \<Rightarrow> int \<Rightarrow> int \<Rightarrow> FrameTimer \<Rightarrow> FrameTimer" where
  "limitFrameRate cfg benchmark displayRefresh now t =
     (if fpsLimit cfg \<noteq> 0 \<and> \<not> benchmark then
        (let lastDuration = now - m_frameStart t;
             target = targetDuration cfg displayRefresh;
             min' = - target;
             delta = arx_clamp (m_frameDelta t + target - lastDuration) min' target;
             t1 = t\<lparr>m_frameStart := now, m_frameDelta := delta\<rparr>
         in if delta > 0 then t1\<lparr>slept := slept t1 @ [delta]\<rparr> else t1)
      else t)"

text \<open>The time slept by one frame: the durations appended to \<open>slept\<close> by that call.\<close>

definition sleptBy :: "FrameTimer \<Rightarrow> FrameTimer \<Rightarrow> int" where
  "sleptBy before after = sum_list (drop (length (slept before)) (slept after))"

text \<open>A run of frames, one clock reading per frame.\<close>

fun runFrames :: "VideoConfig \<Rightarrow> bool \<Rightarrow> int \<Rightarrow> int list \<Rightarrow> FrameTimer \<Rightarrow> FrameTimer" where
  "runFrames cfg benchmark displayRefresh [] t = t"
| "runFrames cfg benchmark displayRefresh (now # nows) t =
     runFrames cfg benchmark displayRefresh nows (limitFrameRate cfg benchmark displayRefresh now t)"

definition FrameTimer_init :: FrameTimer where
  "FrameTimer_init = \<lparr>m_frameStart = 0, m_frameDelta = 0, slept = []\<rparr>"

text \<open>A cap of 60 frames per second, and the timer after a first frame at 1 ms.\<close>

definition example_cfg :: VideoConfig where
  "example_cfg = \<lparr>fpsLimit = 60, vsync = 0\<rparr>"

definition example_timer :: FrameTimer where
  "example_timer = \<lparr>m_frameStart = 1000, m_frameDelta = 15666, slept = [15666]\<rparr>"

section \<open>SDL2Window.cpp: the event pump\<close>

datatype SDL_WindowEventID =
    SDL_WINDOWEVENT_SHOWN | SDL_WINDOWEVENT_HIDDEN | SDL_WINDOWEVENT_EXPOSED
  | SDL_WINDOWEVENT_MINIMIZED | SDL_WINDOWEVENT_MAXIMIZED | SDL_WINDOWEVENT_RESTORED
  | SDL_WINDOWEVENT_FOCUS_GAINED | SDL_WINDOWEVENT_FOCUS_LOST
  | SDL_WINDOWEVENT_MOVED | SDL_WINDOWEVENT_SIZE_CHANGED | SDL_WINDOWEVENT_CLOSE
  | SDL_WINDOWEVENT_other

text \<open>A window event carries \<^verbatim>\<open>data1\<close> and \<^verbatim>\<open>data2\<close>.\<close>

datatype SDL_Event =
    SDL_WINDOWEVENT SDL_WindowEventID int int
  | SDL_QUIT
  | SDL_DROPFILE string
  | SDL_other

datatype RendererCall = beforeResize bool | afterResize | SetViewport int int

text \<open>
  What the window reads from SDL is part of the state: \<open>sdl_size\<close> is the answer of
  \<^verbatim>\<open>SDL_GetWindowSize\<close>, \<open>sdl_refresh\<close> that of \<^verbatim>\<open>SDL_GetCurrentDisplayMode\<close>
  (\<open>None\<close> when it fails), \<open>sdl_queue\<close> the pending events. \<open>x11_unminimized\<close>
  stands for the test on the SDL version, the X11 subsystem and the window flags in the
  \<^verbatim>\<open>SDL_WINDOWEVENT_SHOWN\<close> case. The renderer is seen through the calls made to it
  and its \<^verbatim>\<open>isInitialized()\<close>; \<open>m_input\<close> says whether an input backend is set.
\<close>

record SDL2Window = Window +
  s_mainWindow :: bool
  sdl_size :: Vec2i
  sdl_refresh :: "int option"
  sdl_queue :: "SDL_Event list"
  x11_unminimized :: bool
  renderer_initialized :: bool
  renderer_calls :: "RendererCall list"
  m_input :: bool
  input_events :: "SDL_Event list"

text \<open>
  \<^verbatim>\<open>OpenGLRenderer::beforeResize\<close> does nothing in the \<^verbatim>\<open>__vita__\<close> build;
  \<^verbatim>\<open>afterResize\<close> reinitializes a renderer that is not initialized.
\<close>

definition renderer_beforeResize :: "bool \<Rightarrow> SDL2Window \<Rightarrow> SDL2Window" where
  "renderer_beforeResize wasOrIsFullscreen w =
     w\<lparr>renderer_calls := renderer_calls w @ [beforeResize wasOrIsFullscreen]\<rparr>"

definition renderer_afterResize :: "SDL2Window \<Rightarrow> SDL2Window" where
  "renderer_afterResize w =
     w\<lparr>renderer_calls := renderer_calls w @ [afterResize], renderer_initialized := True\<rparr>"

definition renderer_SetViewport :: "SDL2Window \<Rightarrow> SDL2Window" where
  "renderer_SetViewport w =
     w\<lparr>renderer_calls := renderer_calls w @
          [SetViewport (fst (resolution (m_mode w))) (snd (resolution (m_mode w)))]\<rparr>"

text \<open>\<^verbatim>\<open>void SDL2Window::updateSize(bool force)\<close>\<close>

definition updateSize :: "bool \<Rightarrow> SDL2Window \<Rightarrow> SDL2Window" where
  "updateSize force w =
     (let oldMode = m_mode w;
          w1 = w\<lparr>m_mode := \<lparr>resolution = sdl_size w,
                              refresh = (case sdl_refresh w of Some r \<Rightarrow> r | None \<Rightarrow> 0)\<rparr>\<rparr>;
          w2 = (if force \<or> resolution (m_mode w1) \<noteq> resolution oldMode
                then renderer_SetViewport (renderer_afterResize w1) else w1)
      in if force \<or> m_mode w2 \<noteq> oldMode then onResize (resolution (m_mode w2)) w2 else w2)"

text \<open>
  \<^verbatim>\<open>SDL2Window::eventFilter\<close>, the filter installed with \<^verbatim>\<open>SDL_SetEventFilter\<close>.
\<close>

definition eventFilter :: "SDL_Event \<Rightarrow> SDL2Window \<Rightarrow> int \<times> SDL2Window" where
  "eventFilter event w =
     (if s_mainWindow w \<and> event = SDL_QUIT
      then (case onClose w of (shouldClose, w') \<Rightarrow> (if shouldClose then 1 else 0, w'))
      else (1, w))"

text \<open>
  SDL's side of the filter, from the documentation of \<^verbatim>\<open>SDL_SetEventFilter\<close>: an
  event is added to the queue if the filter returns 1 and dropped if it returns 0.
\<close>

definition sdl_post :: "SDL_Event \<Rightarrow> SDL2Window \<Rightarrow> SDL2Window" where
  "sdl_post event w =
     (case eventFilter event w of
        (r, w') \<Rightarrow> if r = 0 then w' else w'\<lparr>sdl_queue := sdl_queue w' @ [event]\<rparr>)"

text \<open>
  The \<^verbatim>\<open>switch\<close> of \<^verbatim>\<open>SDL2Window::processEvents\<close> for one event: \<open>True\<close> with the
  new state when the loop goes on, \<open>False\<close> when the function returns from inside it.
\<close>

fun handleWindowEvent :: "SDL_WindowEventID \<Rightarrow> int \<Rightarrow> int \<Rightarrow> SDL2Window \<Rightarrow> SDL2Window" where
  "handleWindowEvent SDL_WINDOWEVENT_SHOWN data1 data2 w =
     (let w1 = onShow True w
      in if x11_unminimized w1 \<and> m_minimized w1 then onRestore w1 else w1)"
| "handleWindowEvent SDL_WINDOWEVENT_HIDDEN data1 data2 w = onShow False w"
| "handleWindowEvent SDL_WINDOWEVENT_EXPOSED data1 data2 w = onPaint w"
| "handleWindowEvent SDL_WINDOWEVENT_MINIMIZED data1 data2 w = onMinimize w"
| "handleWindowEvent SDL_WINDOWEVENT_MAXIMIZED data1 data2 w = onMaximize w"
| "handleWindowEvent SDL_WINDOWEVENT_RESTORED data1 data2 w = onRestore w"
| "handleWindowEvent SDL_WINDOWEVENT_FOCUS_GAINED data1 data2 w = onFocus True w"
| "handleWindowEvent SDL_WINDOWEVENT_FOCUS_LOST data1 data2 w = onFocus False w"
| "handleWindowEvent SDL_WINDOWEVENT_MOVED data1 data2 w =
     onMove data1 data2 (if \<not> m_fullscreen w then updateSize False w else w)"
| "handleWindowEvent SDL_WINDOWEVENT_SIZE_CHANGED data1 data2 w =
     (let newSize = (data1, data2)
      in if newSize \<noteq> resolution (m_mode w) \<and> \<not> m_fullscreen w
         then updateSize False (renderer_beforeResize False w)
         else w)"
| "handleWindowEvent SDL_WINDOWEVENT_CLOSE data1 data2 w = w"
| "handleWindowEvent SDL_WINDOWEVENT_other data1 data2 w = w"

fun handleEvent :: "SDL_Event \<Rightarrow> SDL2Window \<Rightarrow> bool \<times> SDL2Window" where
  "handleEvent (SDL_WINDOWEVENT ev data1 data2) w = (True, handleWindowEvent ev data1 data2 w)"
| "handleEvent SDL_QUIT w = (False, onDestroy w)"
| "handleEvent (SDL_DROPFILE file) w = (False, onDroppedFile file w)"
| "handleEvent SDL_other w = (True, w)"

definition input_onEvent :: "SDL_Event \<Rightarrow> SDL2Window \<Rightarrow> SDL2Window" where
  "input_onEvent event w = (if m_input w then w\<lparr>input_events := input_events w @ [event]\<rparr> else w)"

text \<open>The code after the loop.\<close>

definition afterEvents :: "SDL2Window \<Rightarrow> SDL2Window" where
  "afterEvents w =
     (if \<not> renderer_initialized w
      then renderer_SetViewport (renderer_afterResize (updateSize False w))
      else w)"

text \<open>
  The loop, on the events that \<^verbatim>\<open>SDL_PollEvent\<close> hands out: each is taken off the
  queue, dispatched and passed to the input backend.
\<close>

fun eventLoop :: "SDL_Event list \<Rightarrow> SDL2Window \<Rightarrow> SDL2Window" where
  "eventLoop [] w = afterEvents w"
| "eventLoop (event # pending) w =
     (case handleEvent event (w\<lparr>sdl_queue := pending\<rparr>) of
        (False, w') \<Rightarrow> w'
      | (True, w') \<Rightarrow> eventLoop pending (input_onEvent event w'))"

text \<open>
  \<^verbatim>\<open>SDL2Window::processEvents\<close>. With an empty queue \<^verbatim>\<open>SDL_PollEvent\<close> returns 0 and
  \<^verbatim>\<open>SDL_WaitEvent\<close> does not return, which is the result \<open>None\<close>.
\<close>

definition processEvents :: "bool \<Rightarrow> SDL2Window \<Rightarrow> SDL2Window option" where
  "processEvents waitForEvent w =
     (if waitForEvent \<and> sdl_queue w = [] then None else Some (eventLoop (sdl_queue w) w))"

text \<open>The Resize notifications in a trace.\<close>

definition resizeNotifications :: "Trace \<Rightarrow> Trace" where
  "resizeNotifications t = filter (\<lambda>c. snd c = ResizeWindow) t"

text \<open>
  Two window states agree on the cached mode, the fullscreen flag, the state of the
  renderer and the Resize notifications delivered.
\<close>

definition sameSize :: "SDL2Window \<Rightarrow> SDL2Window \<Rightarrow> bool" where
  "sameSize w' w =
     (m_mode w' = m_mode w \<and> m_fullscreen w' = m_fullscreen w
      \<and> renderer_initialized w' = renderer_initialized w
      \<and> resizeNotifications (trace w') = resizeNotifications (trace w))"

text \<open>
  A fullscreen window of 720 by 408 whose three listeners accept a close, with SDL
  reporting a size of 960 by 544 and four events pending; and the same window with an
  empty queue, once with the second listener vetoing.
\<close>

definition example_window :: SDL2Window where
  "example_window =
     \<lparr>m_position = (0, 0), m_mode = \<lparr>resolution = (720, 408), refresh = 60\<rparr>,
      m_minimized = False, m_maximized = False, m_visible = True, m_fullscreen = True,
      m_focused = True,
      m_listeners = [\<lparr>ident = 1, closeAnswer = True\<rparr>, \<lparr>ident = 2, closeAnswer = True\<rparr>,
                     \<lparr>ident = 3, closeAnswer = True\<rparr>],
      trace = [], s_mainWindow = True, sdl_size = (960, 544), sdl_refresh = Some 60,
      sdl_queue = [SDL_WINDOWEVENT SDL_WINDOWEVENT_SIZE_CHANGED 960 544,
                   SDL_WINDOWEVENT SDL_WINDOWEVENT_MINIMIZED 0 0,
                   SDL_WINDOWEVENT SDL_WINDOWEVENT_SIZE_CHANGED 1 1,
                   SDL_WINDOWEVENT SDL_WINDOWEVENT_MOVED 8 8],
      x11_unminimized = False, renderer_initialized = True, renderer_calls = [],
      m_input = True, input_events = []\<rparr>"

definition example_idle :: SDL2Window where
  "example_idle = example_window\<lparr>sdl_queue := []\<rparr>"

definition example_vetoing :: SDL2Window where
  "example_vetoing =
     example_idle\<lparr>m_listeners := [\<lparr>ident = 1, closeAnswer = True\<rparr>,
                                   \<lparr>ident = 2, closeAnswer = False\<rparr>,
                                   \<lparr>ident = 3, closeAnswer = True\<rparr>]\<rparr>"

section \<open>Properties of the display mode order and of the window flags\<close>

lemma DisplayMode_less_irrefl: "\<not> DisplayMode_less a a"
  by (simp add: DisplayMode_less_def)

lemma DisplayMode_less_trans:
  "DisplayMode_less a b \<Longrightarrow> DisplayMode_less b c \<Longrightarrow> DisplayMode_less a c"
  by (auto simp: DisplayMode_less_def split: if_splits)

lemma DisplayMode_less_total: "(a::DisplayMode) \<noteq> b \<Longrightarrow> DisplayMode_less a b \<or> DisplayMode_less b a"
  by (cases a, cases b) (auto simp: DisplayMode_less_def)

lemma set_insert_mode: "set (insert_mode m ks) = insert m (set ks)"
  by (induction ks) auto

lemma set_std_sort: "set (std_sort ms) = set ms"
  by (induction ms) (simp_all add: set_insert_mode)

lemma sorted_insert_mode:
  "sorted_wrt (\<lambda>a b. \<not> DisplayMode_less b a) ks \<Longrightarrow>
   sorted_wrt (\<lambda>a b. \<not> DisplayMode_less b a) (insert_mode m ks)"
proof (induction ks)
  case Nil
  then show ?case by simp
next
  case (Cons k ks)
  show ?case
  proof (cases "DisplayMode_less k m")
    case True
    have "\<not> DisplayMode_less m k"
      using True DisplayMode_less_trans DisplayMode_less_irrefl by blast
    moreover have "\<forall>y\<in>set ks. \<not> DisplayMode_less y k" using Cons.prems by simp
    ultimately show ?thesis using True Cons by (auto simp: set_insert_mode)
  next
    case False
    have "\<forall>y\<in>set ks. \<not> DisplayMode_less y m"
    proof
      fix y assume "y \<in> set ks"
      then have yk: "\<not> DisplayMode_less y k" using Cons.prems by simp
      show "\<not> DisplayMode_less y m"
      proof
        assume ym: "DisplayMode_less y m"
        have "k = m \<or> DisplayMode_less m k" using False DisplayMode_less_total [of k m] by blast
        then show False using ym yk DisplayMode_less_trans by blast
      qed
    qed
    then show ?thesis using False Cons.prems by simp
  qed
qed

lemma sorted_std_sort: "sorted_wrt (\<lambda>a b. \<not> DisplayMode_less b a) (std_sort ms)"
  by (induction ms) (simp_all add: sorted_insert_mode)

lemma set_std_unique: "set (std_unique xs) = set xs"
  by (induction xs rule: std_unique.induct) auto

lemma strict_std_unique:
  "sorted_wrt (\<lambda>a b. \<not> DisplayMode_less b a) xs \<Longrightarrow> sorted_wrt DisplayMode_less (std_unique xs)"
proof (induction xs rule: std_unique.induct)
  case 1
  then show ?case by simp
next
  case (2 a)
  then show ?case by simp
next
  case (3 a b bs)
  show ?case
  proof (cases "a = b")
    case True
    then show ?thesis using 3 by simp
  next
    case False
    have ab: "DisplayMode_less a b" using False 3(3) DisplayMode_less_total [of a b] by auto
    have "\<forall>y\<in>set bs. DisplayMode_less a y"
    proof
      fix y assume "y \<in> set bs"
      then have "\<not> DisplayMode_less y b" using 3(3) by simp
      then have "b = y \<or> DisplayMode_less b y" using DisplayMode_less_total [of b y] by blast
      then show "DisplayMode_less a y" using ab DisplayMode_less_trans by blast
    qed
    then show ?thesis using False 3 ab by (simp add: set_std_unique)
  qed
qed

lemma strict_sorted_distinct: "sorted_wrt DisplayMode_less xs \<Longrightarrow> distinct xs"
  by (induction xs) (auto simp: DisplayMode_less_irrefl)

text \<open>
  C7. The order of display modes (resolution.x, then resolution.y, then refresh) is a
  strict total order: irreflexive, transitive, and total on distinct values. The list of
  modes collected over all displays, sorted and with adjacent equal elements removed, is
  strictly increasing, has no duplicate, and holds exactly the modes collected. Removing
  the adjacent equal elements of any list that is sorted by this order, however it was
  sorted, gives a strictly increasing list without duplicates of the same modes.
\<close>

theorem DisplayMode_strict_total_order:
  "\<not> DisplayMode_less a a
   \<and> (DisplayMode_less a b \<and> DisplayMode_less b c \<longrightarrow> DisplayMode_less a c)
   \<and> (a \<noteq> b \<longrightarrow> DisplayMode_less a b \<or> DisplayMode_less b a)
   \<and> sorted_wrt DisplayMode_less (enumerateDisplayModes displays)
   \<and> distinct (enumerateDisplayModes displays)
   \<and> set (enumerateDisplayModes displays) = set (concat (map collectModes displays))
   \<and> (sorted_wrt (\<lambda>m k. \<not> DisplayMode_less k m) ms \<longrightarrow>
        sorted_wrt DisplayMode_less (std_unique ms) \<and> distinct (std_unique ms)
        \<and> set (std_unique ms) = set ms)"
proof -
  have strict: "sorted_wrt DisplayMode_less (enumerateDisplayModes displays)"
    unfolding enumerateDisplayModes_def by (rule strict_std_unique [OF sorted_std_sort])
  have members: "set (enumerateDisplayModes displays) = set (concat (map collectModes displays))"
    unfolding enumerateDisplayModes_def by (simp only: set_std_unique set_std_sort)
  have any: "sorted_wrt (\<lambda>m k. \<not> DisplayMode_less k m) ms \<longrightarrow>
      sorted_wrt DisplayMode_less (std_unique ms) \<and> distinct (std_unique ms)
      \<and> set (std_unique ms) = set ms"
  proof
    assume "sorted_wrt (\<lambda>m k. \<not> DisplayMode_less k m) ms"
    then have "sorted_wrt DisplayMode_less (std_unique ms)" by (rule strict_std_unique)
    then show "sorted_wrt DisplayMode_less (std_unique ms) \<and> distinct (std_unique ms)
        \<and> set (std_unique ms) = set ms"
      by (simp add: strict_sorted_distinct set_std_unique)
  qed
  have trans: "DisplayMode_less a b \<and> DisplayMode_less b c \<longrightarrow> DisplayMode_less a c"
    using DisplayMode_less_trans [of a b c] by simp
  have total: "a \<noteq> b \<longrightarrow> DisplayMode_less a b \<or> DisplayMode_less b a"
    using DisplayMode_less_total [of a b] by simp
  show ?thesis
    by (intro conjI DisplayMode_less_irrefl trans total strict strict_sorted_distinct [OF strict]
          members any)
qed

theorem DisplayMode_strict_total_order_witness:
  "DisplayMode_less \<lparr>resolution = (640, 480), refresh = 60\<rparr> \<lparr>resolution = (800, 600), refresh = 50\<rparr>
   \<and> DisplayMode_less \<lparr>resolution = (800, 600), refresh = 50\<rparr> \<lparr>resolution = (800, 600), refresh = 60\<rparr>
   \<and> DisplayMode_less \<lparr>resolution = (640, 480), refresh = 60\<rparr> \<lparr>resolution = (800, 600), refresh = 60\<rparr>
   \<and> enumerateDisplayModes
        [ [Some (800, 600, 60), None, Some (640, 480, 60)], [Some (800, 600, 60), Some (800, 600, 50)]]
       = [\<lparr>resolution = (640, 480), refresh = 60\<rparr>, \<lparr>resolution = (800, 600), refresh = 50\<rparr>,
          \<lparr>resolution = (800, 600), refresh = 60\<rparr>]
   \<and> distinct (enumerateDisplayModes
        [ [Some (800, 600, 60), None, Some (640, 480, 60)], [Some (800, 600, 60), Some (800, 600, 50)]])
   \<and> sorted_wrt DisplayMode_less
        (std_unique [\<lparr>resolution = (640, 480), refresh = 60\<rparr>,
                     \<lparr>resolution = (800, 600), refresh = 50\<rparr>,
                     \<lparr>resolution = (800, 600), refresh = 50\<rparr>])"
proof -
  let ?a = "\<lparr>resolution = (640, 480), refresh = 60\<rparr>"
  let ?b = "\<lparr>resolution = (800, 600), refresh = 50\<rparr>"
  let ?c = "\<lparr>resolution = (800, 600), refresh = 60\<rparr>"
  let ?ds = "[ [Some (800, 600, 60), None, Some (640, 480, 60)], [Some (800, 600, 60), Some (800, 600, 50)]]"
  have ab: "DisplayMode_less ?a ?b" and bc: "DisplayMode_less ?b ?c"
    by (simp_all add: DisplayMode_less_def)
  have sorted: "sorted_wrt (\<lambda>m k. \<not> DisplayMode_less k m) [?a, ?b, ?b]"
    by (simp add: DisplayMode_less_def)
  have enum: "enumerateDisplayModes ?ds = [?a, ?b, ?c]"
    by (simp add: enumerateDisplayModes_def DisplayMode_less_def)
  note t = DisplayMode_strict_total_order [of ?a ?b ?c ?ds "[?a, ?b, ?b]"]
  have ac: "DisplayMode_less ?a ?c"
    by (rule mp [OF t [THEN conjunct2, THEN conjunct1] conjI [OF ab bc]])
  have dist: "distinct (enumerateDisplayModes ?ds)"
    by (rule t [THEN conjunct2, THEN conjunct2, THEN conjunct2, THEN conjunct2, THEN conjunct1])
  have uniq: "sorted_wrt DisplayMode_less (std_unique [?a, ?b, ?b])"
    by (rule mp [OF t [THEN conjunct2, THEN conjunct2, THEN conjunct2, THEN conjunct2,
            THEN conjunct2, THEN conjunct2] sorted, THEN conjunct1])
  show ?thesis
    by (intro conjI ab bc ac enum dist uniq)
qed

lemma flags_exclusive_step:
  "\<not> (m_minimized w \<and> m_maximized w) \<Longrightarrow>
   \<not> (m_minimized (applyFlagEvent e w) \<and> m_maximized (applyFlagEvent e w))"
  by (cases e) (simp_all add: onMinimize_def onMaximize_def onRestore_def notifyAll_def)

lemma flags_exclusive_steps:
  "\<not> (m_minimized w \<and> m_maximized w) \<Longrightarrow>
   \<not> (m_minimized (applyFlagEvents es w) \<and> m_maximized (applyFlagEvents es w))"
proof (induction es arbitrary: w)
  case Nil
  then show ?case by simp
next
  case (Cons e es)
  from flags_exclusive_step [OF Cons.prems] show ?case
    by (simp add: Cons.IH)
qed

text \<open>
  C10. The minimized and maximized flags are never both set: both start false,
  \<^verbatim>\<open>onMinimize\<close> sets minimized and clears maximized, \<^verbatim>\<open>onMaximize\<close> sets maximized
  and clears minimized, \<^verbatim>\<open>onRestore\<close> clears both, and after any sequence of these
  three calls on a new window at most one of the flags is set.
\<close>

theorem minimized_maximized_exclusive:
  "\<not> m_minimized Window_init \<and> \<not> m_maximized Window_init
   \<and> (m_minimized (onMinimize w) \<and> \<not> m_maximized (onMinimize w))
   \<and> (\<not> m_minimized (onMaximize w) \<and> m_maximized (onMaximize w))
   \<and> (\<not> m_minimized (onRestore w) \<and> \<not> m_maximized (onRestore w))
   \<and> \<not> (m_minimized (applyFlagEvents es Window_init) \<and> m_maximized (applyFlagEvents es Window_init))"
proof -
  have init: "\<not> (m_minimized Window_init \<and> m_maximized Window_init)"
    by (simp add: Window_init_def)
  show ?thesis
    using flags_exclusive_steps [OF init, of es]
    by (simp add: Window_init_def onMinimize_def onMaximize_def onRestore_def notifyAll_def)
qed

theorem minimized_maximized_exclusive_witness:
  "m_minimized (applyFlagEvents [Maximize, Restore, Maximize, Minimize] Window_init)
   \<and> \<not> m_maximized (applyFlagEvents [Maximize, Restore, Maximize, Minimize] Window_init)"
  using minimized_maximized_exclusive [of Window_init "[Maximize, Restore, Maximize, Minimize]"]
  by (simp add: Window_init_def onMinimize_def onMaximize_def onRestore_def notifyAll_def)

section \<open>Properties of the capability queries and of the override parser\<close>

lemma scanOverrides_newer:
  "\<forall>ov\<in>set newer. ov \<noteq> [] \<and> tl ov \<noteq> extension \<Longrightarrow>
   scanOverrides (rev newer @ rest) extension = scanOverrides rest extension"
proof (induction newer arbitrary: rest)
  case Nil
  then show ?case by simp
next
  case (Cons ov newer)
  have "ov \<noteq> []" "tl ov \<noteq> extension" using Cons.prems by simp_all
  then obtain c name where eq: "ov = c # name" "name \<noteq> extension" by (cases ov) auto
  have "scanOverrides (rev newer @ (ov # rest)) extension = scanOverrides (ov # rest) extension"
    using Cons.IH [of "ov # rest"] Cons.prems by simp
  then show ?case using eq by simp
qed

lemma scanOverrides_most_recent:
  assumes "overrides = older @ [c # extension] @ newer"
    and "\<forall>ov\<in>set newer. ov \<noteq> [] \<and> tl ov \<noteq> extension"
  shows "scanOverrides (rev overrides) extension = Some (Some (c = CHR ''+''))"
proof -
  have "rev overrides = rev newer @ ((c # extension) # rev older)" using assms(1) by simp
  then show ?thesis using scanOverrides_newer [OF assms(2)] by simp
qed

text \<open>
  C1, as the specification states it, fails: with the override \<open>+GL_ARB_sample_shading\<close>
  registered, a native version 2.1 below the requested 4.0 and a driver that does not
  report the extension, \<^verbatim>\<open>has\<close> answers false.
\<close>

theorem has_forced_on_counterexample:
  "has noExtensions example_forced_on ''GL_ARB_sample_shading'' 40 = Some False"
  by (simp add: has_def noExtensions_def example_forced_on_def example_gl_def)

text \<open>
  C1, amended. When the most recently registered override entry for an extension is
  \<open>-ext\<close>, \<^verbatim>\<open>has(ext, v)\<close> is false whatever the native version and the native
  extension query say. When it is \<open>+ext\<close>, \<^verbatim>\<open>has(ext, v)\<close> is true exactly when the
  native version is at least \<open>v\<close> or the native extension query succeeds: the entry
  overrides the version override, not a failed detection.
\<close>

theorem has_override_wins:
  "m_extensionOverrides gl = older @ [c # extension] @ newer
   \<and> (\<forall>ov\<in>set newer. ov \<noteq> [] \<and> tl ov \<noteq> extension) \<longrightarrow>
     (c = CHR ''-'' \<longrightarrow> has supported gl extension version = Some False)
     \<and> (c = CHR ''+'' \<longrightarrow>
          has supported gl extension version = Some (version \<le> m_version gl \<or> supported extension))"
proof (intro impI, elim conjE)
  assume a: "m_extensionOverrides gl = older @ [c # extension] @ newer"
    and b: "\<forall>ov\<in>set newer. ov \<noteq> [] \<and> tl ov \<noteq> extension"
  have s: "scanOverrides (rev (m_extensionOverrides gl)) extension = Some (Some (c = CHR ''+''))"
    by (rule scanOverrides_most_recent [OF a b])
  show "(c = CHR ''-'' \<longrightarrow> has supported gl extension version = Some False)
     \<and> (c = CHR ''+'' \<longrightarrow>
          has supported gl extension version = Some (version \<le> m_version gl \<or> supported extension))"
    unfolding has_def s by (auto simp: not_less)
qed

theorem has_override_wins_witness:
  "has noExtensions example_overridden ''GL_ARB_sample_shading'' 40 = Some False
   \<and> has allExtensions example_overridden ''GL_ARB_sample_shading'' 40 = Some True
   \<and> has allExtensions example_overridden ''GL_ARB_sample_shading'' 20 = Some True
   \<and> has allExtensions example_disabled ''GL_ARB_sample_shading'' 20 = Some False"
  using
    has_override_wins [of example_overridden "[''-GL_ARB_sample_shading'']" "CHR ''+''"
      "''GL_ARB_sample_shading''" "[''-GL_ARB_draw_elements_base_vertex'']" noExtensions 40]
    has_override_wins [of example_overridden "[''-GL_ARB_sample_shading'']" "CHR ''+''"
      "''GL_ARB_sample_shading''" "[''-GL_ARB_draw_elements_base_vertex'']" allExtensions 40]
    has_override_wins [of example_overridden "[''-GL_ARB_sample_shading'']" "CHR ''+''"
      "''GL_ARB_sample_shading''" "[''-GL_ARB_draw_elements_base_vertex'']" allExtensions 20]
    has_override_wins [of example_disabled "[''+GL_ARB_sample_shading'']" "CHR ''-''"
      "''GL_ARB_sample_shading''" "[''-GL_ARB_draw_elements_base_vertex'']" allExtensions 20]
  by (simp add: noExtensions_def allExtensions_def example_overridden_def example_disabled_def
        example_gl_def)

lemma parseTokens_append:
  "parseTokens toInt (as @ bs) st = parseTokens toInt bs (parseTokens toInt as st)"
  by (induction as arbitrary: st) simp_all

lemma parseToken_version: "m_version (snd (parseToken toInt tok st)) = m_version (snd st)"
  by (cases st) (simp add: parseToken_def Let_def split: option.splits)

lemma parseTokens_version: "m_version (snd (parseTokens toInt ts st)) = m_version (snd st)"
  by (induction ts arbitrary: st) (simp_all add: parseToken_version)

lemma parseTokens_extensions:
  "\<forall>t\<in>set exts. isExtensionToken t \<Longrightarrow>
   m_extensionOverrides (snd (parseTokens toInt exts (first, gl))) = m_extensionOverrides gl @ exts
   \<and> m_versionOverride (snd (parseTokens toInt exts (first, gl))) = m_versionOverride gl"
proof (induction exts arbitrary: first gl)
  case Nil
  then show ?case by simp
next
  case (Cons t exts)
  have t: "isExtensionToken t" and rest: "\<forall>t\<in>set exts. isExtensionToken t"
    using Cons.prems by simp_all
  show ?case using Cons.IH [OF rest] t by (simp add: parseToken_def)
qed

lemma parseToken_accepted:
  "\<not> isExtensionToken tok \<Longrightarrow> parseVersionToken toInt (m_version gl) tok = Some v \<Longrightarrow>
   m_extensionOverrides (snd (parseToken toInt tok (first, gl))) = []
   \<and> m_versionOverride (snd (parseToken toInt tok (first, gl))) = v"
  by (simp add: parseToken_def Let_def)

lemma example_tokens:
  "splitIgnoreEmpty ''+GL_FOO -GL_BAR 4.2'' override_separators = [''+GL_FOO'', ''-GL_BAR'', ''4.2'']"
  "splitIgnoreEmpty ''+GL_FOO 4.2 -GL_BAR'' override_separators = [''+GL_FOO'', ''4.2'', ''-GL_BAR'']"
  by (simp_all add: splitIgnoreEmpty_def override_separators_def)

lemma example_version:
  "toInt ''4'' = Some 4 \<Longrightarrow> toInt ''2'' = Some 2 \<Longrightarrow> parseVersionToken toInt ver ''4.2'' = Some 42"
  by (simp add: parseVersionToken_def starts_with_def find_char_def value_or_def u32_max_div_10_def)

lemma example_kinds:
  "isExtensionToken ''+GL_FOO''" "isExtensionToken ''-GL_BAR''" "\<not> isExtensionToken ''4.2''"
  by (simp_all add: isExtensionToken_def starts_with_def)

text \<open>
  C3. A version token (one that is not \<open>+GL_...\<close> or \<open>-GL_...\<close> and that the parser
  accepts: a version number, \<open>+*\<close>, \<open>+\<close>, \<open>-*\<close> or \<open>-\<close>) clears every extension
  override accumulated before it, whatever the object held from the constructor or an
  earlier parse, so that only the extension tokens after it remain; extension tokens only
  append and leave the version override alone. Hence \<open>+GL_FOO -GL_BAR 4.2\<close> leaves the
  version override 42 and no extension override, and \<open>+GL_FOO 4.2 -GL_BAR\<close> leaves 42
  and the single override \<open>-GL_BAR\<close>.
\<close>

theorem version_token_clears_overrides:
  "(\<not> isExtensionToken tok \<and> parseVersionToken toInt (m_version gl) tok = Some v
      \<and> (\<forall>t\<in>set post. isExtensionToken t) \<longrightarrow>
      m_extensionOverrides (snd (parseTokens toInt (pre @ [tok] @ post) (first, gl))) = post
      \<and> m_versionOverride (snd (parseTokens toInt (pre @ [tok] @ post) (first, gl))) = v)
   \<and> ((\<forall>t\<in>set exts. isExtensionToken t) \<longrightarrow>
      m_extensionOverrides (snd (parseTokens toInt exts (first, gl))) = m_extensionOverrides gl @ exts
      \<and> m_versionOverride (snd (parseTokens toInt exts (first, gl))) = m_versionOverride gl)
   \<and> (toInt ''4'' = Some 4 \<and> toInt ''2'' = Some 2 \<longrightarrow>
      m_versionOverride (parseOverrideConfig toInt ''+GL_FOO -GL_BAR 4.2'' gl) = 42
      \<and> m_extensionOverrides (parseOverrideConfig toInt ''+GL_FOO -GL_BAR 4.2'' gl) = []
      \<and> m_versionOverride (parseOverrideConfig toInt ''+GL_FOO 4.2 -GL_BAR'' gl) = 42
      \<and> m_extensionOverrides (parseOverrideConfig toInt ''+GL_FOO 4.2 -GL_BAR'' gl) = [''-GL_BAR''])"
proof (intro conjI impI)
  assume a: "\<not> isExtensionToken tok \<and> parseVersionToken toInt (m_version gl) tok = Some v
      \<and> (\<forall>t\<in>set post. isExtensionToken t)"
  obtain f1 g1 where st1: "parseTokens toInt pre (first, gl) = (f1, g1)" by fastforce
  have ver: "m_version g1 = m_version gl"
    using parseTokens_version [of toInt pre "(first, gl)"] st1 by simp
  obtain f2 g2 where st2: "parseToken toInt tok (f1, g1) = (f2, g2)" by fastforce
  have g2: "m_extensionOverrides g2 = [] \<and> m_versionOverride g2 = v"
    using parseToken_accepted [of tok toInt g1 v f1] a ver st2 by simp
  have whole: "parseTokens toInt (pre @ [tok] @ post) (first, gl) = parseTokens toInt post (f2, g2)"
    by (simp add: parseTokens_append st1 st2)
  have post: "m_extensionOverrides (snd (parseTokens toInt post (f2, g2))) = m_extensionOverrides g2 @ post
     \<and> m_versionOverride (snd (parseTokens toInt post (f2, g2))) = m_versionOverride g2"
    using parseTokens_extensions [of post toInt f2 g2] a by blast
  show "m_extensionOverrides (snd (parseTokens toInt (pre @ [tok] @ post) (first, gl))) = post"
    using whole post g2 by simp
  show "m_versionOverride (snd (parseTokens toInt (pre @ [tok] @ post) (first, gl))) = v"
    using whole post g2 by simp
next
  assume "\<forall>t\<in>set exts. isExtensionToken t"
  then show "m_extensionOverrides (snd (parseTokens toInt exts (first, gl))) = m_extensionOverrides gl @ exts"
    and "m_versionOverride (snd (parseTokens toInt exts (first, gl))) = m_versionOverride gl"
    using parseTokens_extensions by blast+
next
  assume t: "toInt ''4'' = Some 4 \<and> toInt ''2'' = Some 2"
  have v: "parseVersionToken toInt (m_version gl) ''4.2'' = Some 42"
    using t example_version by blast
  show "m_versionOverride (parseOverrideConfig toInt ''+GL_FOO -GL_BAR 4.2'' gl) = 42"
    by (simp add: parseOverrideConfig_def example_tokens parseToken_def example_kinds v Let_def)
  show "m_extensionOverrides (parseOverrideConfig toInt ''+GL_FOO -GL_BAR 4.2'' gl) = []"
    by (simp add: parseOverrideConfig_def example_tokens parseToken_def example_kinds v Let_def)
  show "m_versionOverride (parseOverrideConfig toInt ''+GL_FOO 4.2 -GL_BAR'' gl) = 42"
    by (simp add: parseOverrideConfig_def example_tokens parseToken_def example_kinds v Let_def)
  show "m_extensionOverrides (parseOverrideConfig toInt ''+GL_FOO 4.2 -GL_BAR'' gl) = [''-GL_BAR'']"
    by (simp add: parseOverrideConfig_def example_tokens parseToken_def example_kinds v Let_def)
qed

theorem version_token_clears_overrides_witness:
  "decimalToInt ''4'' = Some 4 \<and> decimalToInt ''2'' = Some 2
   \<and> \<not> isExtensionToken ''4.2''
   \<and> parseVersionToken decimalToInt (m_version example_gl) ''4.2'' = Some 42
   \<and> isExtensionToken ''+GL_FOO'' \<and> isExtensionToken ''-GL_BAR''
   \<and> m_extensionOverrides (snd (parseTokens decimalToInt ([''+GL_FOO''] @ [''4.2''] @ [''-GL_BAR''])
         (True, example_gl))) = [''-GL_BAR'']
   \<and> m_extensionOverrides (snd (parseTokens decimalToInt [''+GL_FOO'', ''-GL_BAR''] (True, example_gl)))
       = [''-GL_ARB_texture_non_power_of_two'', ''+GL_FOO'', ''-GL_BAR'']
   \<and> m_versionOverride (snd (parseTokens decimalToInt [''+GL_FOO'', ''-GL_BAR''] (True, example_gl)))
       = s32_max
   \<and> m_versionOverride (parseOverrideConfig decimalToInt ''+GL_FOO -GL_BAR 4.2'' example_gl) = 42
   \<and> m_extensionOverrides (parseOverrideConfig decimalToInt ''+GL_FOO -GL_BAR 4.2'' example_gl) = []
   \<and> m_versionOverride (parseOverrideConfig decimalToInt ''+GL_FOO 4.2 -GL_BAR'' example_gl) = 42
   \<and> m_extensionOverrides (parseOverrideConfig decimalToInt ''+GL_FOO 4.2 -GL_BAR'' example_gl)
       = [''-GL_BAR'']"
proof -
  have d: "decimalToInt ''4'' = Some 4 \<and> decimalToInt ''2'' = Some 2"
    by (simp add: decimalToInt_def digit_val_def Let_def)
  have v: "parseVersionToken decimalToInt (m_version example_gl) ''4.2'' = Some 42"
    using d example_version by blast
  have k: "isExtensionToken ''+GL_FOO''" "isExtensionToken ''-GL_BAR''" "\<not> isExtensionToken ''4.2''"
    by (simp_all add: isExtensionToken_def starts_with_def)
  show ?thesis
    using d v k
      version_token_clears_overrides [of "''4.2''" decimalToInt example_gl 42 "[''-GL_BAR'']"
        "[''+GL_FOO'']" True "[''+GL_FOO'', ''-GL_BAR'']"]
    by (simp add: example_gl_def)
qed

lemma parseToken_same:
  "sameSettings s t \<Longrightarrow> sameSettings (parseToken toInt tok s) (parseToken toInt tok t)"
  by (cases s; cases t) (auto simp: sameSettings_def parseToken_def Let_def split: option.splits)

lemma parseTokens_same:
  "sameSettings s t \<Longrightarrow> sameSettings (parseTokens toInt ts s) (parseTokens toInt ts t)"
  by (induction ts arbitrary: s t) (simp_all add: parseToken_same)

lemma parseToken_warnings:
  "\<exists>ws. warnings (snd (parseToken toInt tok st)) = warnings (snd st) @ ws"
  by (cases st) (simp add: parseToken_def Let_def split: option.splits)

lemma parseTokens_warnings:
  "\<exists>ws. warnings (snd (parseTokens toInt ts st)) = warnings (snd st) @ ws"
proof (induction ts arbitrary: st)
  case Nil
  then show ?case by simp
next
  case (Cons t ts)
  obtain w1 where w1: "warnings (snd (parseToken toInt t st)) = warnings (snd st) @ w1"
    using parseToken_warnings by blast
  obtain w2 where "warnings (snd (parseTokens toInt ts (parseToken toInt t st)))
      = warnings (snd (parseToken toInt t st)) @ w2"
    using Cons.IH by blast
  then show ?case using w1 by simp
qed

lemma parseToken_malformed:
  "\<not> isExtensionToken tok \<Longrightarrow> parseVersionToken toInt (m_version gl) tok = None \<Longrightarrow>
   parseToken toInt tok (first, gl) = (first, gl\<lparr>warnings := warnings gl @ [invalidLine tok]\<rparr>)"
  by (simp add: parseToken_def invalidLine_def)

lemma split_acc_separator:
  "c \<in> set seps \<Longrightarrow>
   split_acc seps cur (xs @ c # ys) = split_acc seps cur xs @ split_acc seps [] ys"
  by (induction xs arbitrary: cur) simp_all

lemma split_acc_token:
  "tok \<noteq> [] \<Longrightarrow> set tok \<inter> set seps = {} \<Longrightarrow> split_acc seps cur tok = [cur @ tok]"
proof (induction tok arbitrary: cur)
  case Nil
  then show ?case by simp
next
  case (Cons c tok)
  show ?case
  proof (cases "tok = []")
    case True
    then show ?thesis using Cons.prems by simp
  next
    case False
    then show ?thesis using Cons.IH [of "cur @ [c]"] Cons.prems by simp
  qed
qed

lemma split_around_token:
  assumes "c1 \<in> set seps" "c2 \<in> set seps" "tok \<noteq> []" "set tok \<inter> set seps = {}"
  shows "splitIgnoreEmpty (s1 @ c1 # tok @ c2 # s2) seps
           = splitIgnoreEmpty s1 seps @ [tok] @ splitIgnoreEmpty s2 seps"
    and "splitIgnoreEmpty (s1 @ c1 # s2) seps = splitIgnoreEmpty s1 seps @ splitIgnoreEmpty s2 seps"
  using assms
  by (simp_all add: splitIgnoreEmpty_def split_acc_separator split_acc_token)

lemma malformed_between:
  assumes a: "\<not> isExtensionToken tok" and b: "parseVersionToken toInt (m_version gl) tok = None"
  shows "\<exists>f g. parseTokens toInt pre (first, gl) = (f, g)
          \<and> parseTokens toInt (pre @ [tok] @ post) (first, gl)
              = parseTokens toInt post (f, g\<lparr>warnings := warnings g @ [invalidLine tok]\<rparr>)"
    and "sameSettings (parseTokens toInt (pre @ [tok] @ post) (first, gl))
           (parseTokens toInt (pre @ post) (first, gl))"
    and "invalidLine tok \<in> set (warnings (snd (parseTokens toInt (pre @ [tok] @ post) (first, gl))))"
proof -
  obtain f g where st: "parseTokens toInt pre (first, gl) = (f, g)" by fastforce
  have ver: "m_version g = m_version gl"
    using parseTokens_version [of toInt pre "(first, gl)"] st by simp
  let ?g' = "g\<lparr>warnings := warnings g @ [invalidLine tok]\<rparr>"
  have step: "parseToken toInt tok (f, g) = (f, ?g')"
    using parseToken_malformed [of tok toInt g f] a b ver by simp
  have whole: "parseTokens toInt (pre @ [tok] @ post) (first, gl) = parseTokens toInt post (f, ?g')"
    by (simp add: parseTokens_append st step)
  have without: "parseTokens toInt (pre @ post) (first, gl) = parseTokens toInt post (f, g)"
    by (simp add: parseTokens_append st)
  have "sameSettings (f, ?g') (f, g)" by (simp add: sameSettings_def)
  then have same: "sameSettings (parseTokens toInt post (f, ?g')) (parseTokens toInt post (f, g))"
    by (rule parseTokens_same)
  obtain ws where "warnings (snd (parseTokens toInt post (f, ?g'))) = warnings ?g' @ ws"
    using parseTokens_warnings [of toInt post "(f, ?g')"] by auto
  then have logged: "invalidLine tok \<in> set (warnings (snd (parseTokens toInt post (f, ?g'))))"
    by simp
  show "\<exists>f g. parseTokens toInt pre (first, gl) = (f, g)
          \<and> parseTokens toInt (pre @ [tok] @ post) (first, gl)
              = parseTokens toInt post (f, g\<lparr>warnings := warnings g @ [invalidLine tok]\<rparr>)"
    using st whole by blast
  show "sameSettings (parseTokens toInt (pre @ [tok] @ post) (first, gl))
           (parseTokens toInt (pre @ post) (first, gl))"
    using same whole without by simp
  show "invalidLine tok \<in> set (warnings (snd (parseTokens toInt (pre @ [tok] @ post) (first, gl))))"
    using logged whole by simp
qed

text \<open>
  C9. A malformed token, that is one which is not an extension token and for which the
  \<^verbatim>\<open>try\<close> block throws, is logged and skipped: the step changes nothing but the log,
  and wherever the token stands in the token list the parse goes on, so that the final
  version override and extension overrides are those of the same input without the
  token, and the log holds the line for the token. The same holds for the override
  string when the token stands between two separators.
\<close>

theorem malformed_token_skipped:
  "\<not> isExtensionToken tok \<and> parseVersionToken toInt (m_version gl) tok = None \<longrightarrow>
     parseToken toInt tok (first, gl) = (first, gl\<lparr>warnings := warnings gl @ [invalidLine tok]\<rparr>)
     \<and> (\<exists>f g. parseTokens toInt pre (first, gl) = (f, g)
          \<and> parseTokens toInt (pre @ [tok] @ post) (first, gl)
              = parseTokens toInt post (f, g\<lparr>warnings := warnings g @ [invalidLine tok]\<rparr>))
     \<and> m_versionOverride (snd (parseTokens toInt (pre @ [tok] @ post) (first, gl)))
         = m_versionOverride (snd (parseTokens toInt (pre @ post) (first, gl)))
     \<and> m_extensionOverrides (snd (parseTokens toInt (pre @ [tok] @ post) (first, gl)))
         = m_extensionOverrides (snd (parseTokens toInt (pre @ post) (first, gl)))
     \<and> invalidLine tok \<in> set (warnings (snd (parseTokens toInt (pre @ [tok] @ post) (first, gl))))
     \<and> (tok \<noteq> [] \<and> set tok \<inter> set override_separators = {}
          \<and> c1 \<in> set override_separators \<and> c2 \<in> set override_separators \<longrightarrow>
          m_versionOverride (parseOverrideConfig toInt (s1 @ c1 # tok @ c2 # s2) gl)
            = m_versionOverride (parseOverrideConfig toInt (s1 @ c1 # s2) gl)
          \<and> m_extensionOverrides (parseOverrideConfig toInt (s1 @ c1 # tok @ c2 # s2) gl)
            = m_extensionOverrides (parseOverrideConfig toInt (s1 @ c1 # s2) gl)
          \<and> invalidLine tok \<in> set (warnings (parseOverrideConfig toInt (s1 @ c1 # tok @ c2 # s2) gl)))"
proof (intro impI, elim conjE)
  assume a: "\<not> isExtensionToken tok" and b: "parseVersionToken toInt (m_version gl) tok = None"
  note tokens = malformed_between [OF a b, where pre = pre and first = first and post = post]
  have strings: "m_versionOverride (parseOverrideConfig toInt (s1 @ c1 # tok @ c2 # s2) gl)
            = m_versionOverride (parseOverrideConfig toInt (s1 @ c1 # s2) gl)
          \<and> m_extensionOverrides (parseOverrideConfig toInt (s1 @ c1 # tok @ c2 # s2) gl)
            = m_extensionOverrides (parseOverrideConfig toInt (s1 @ c1 # s2) gl)
          \<and> invalidLine tok \<in> set (warnings (parseOverrideConfig toInt (s1 @ c1 # tok @ c2 # s2) gl))"
    if c: "tok \<noteq> [] \<and> set tok \<inter> set override_separators = {}
          \<and> c1 \<in> set override_separators \<and> c2 \<in> set override_separators"
  proof -
    have sp: "splitIgnoreEmpty (s1 @ c1 # tok @ c2 # s2) override_separators
           = splitIgnoreEmpty s1 override_separators @ [tok] @ splitIgnoreEmpty s2 override_separators"
      "splitIgnoreEmpty (s1 @ c1 # s2) override_separators
           = splitIgnoreEmpty s1 override_separators @ splitIgnoreEmpty s2 override_separators"
      using split_around_token [of c1 override_separators c2 tok s1 s2] c by blast+
    show ?thesis
      unfolding parseOverrideConfig_def sp
      using malformed_between [OF a b, where pre = "splitIgnoreEmpty s1 override_separators"
          and first = True and post = "splitIgnoreEmpty s2 override_separators"]
      by (simp add: sameSettings_def)
  qed
  show "parseToken toInt tok (first, gl) = (first, gl\<lparr>warnings := warnings gl @ [invalidLine tok]\<rparr>)
     \<and> (\<exists>f g. parseTokens toInt pre (first, gl) = (f, g)
          \<and> parseTokens toInt (pre @ [tok] @ post) (first, gl)
              = parseTokens toInt post (f, g\<lparr>warnings := warnings g @ [invalidLine tok]\<rparr>))
     \<and> m_versionOverride (snd (parseTokens toInt (pre @ [tok] @ post) (first, gl)))
         = m_versionOverride (snd (parseTokens toInt (pre @ post) (first, gl)))
     \<and> m_extensionOverrides (snd (parseTokens toInt (pre @ [tok] @ post) (first, gl)))
         = m_extensionOverrides (snd (parseTokens toInt (pre @ post) (first, gl)))
     \<and> invalidLine tok \<in> set (warnings (snd (parseTokens toInt (pre @ [tok] @ post) (first, gl))))
     \<and> (tok \<noteq> [] \<and> set tok \<inter> set override_separators = {}
          \<and> c1 \<in> set override_separators \<and> c2 \<in> set override_separators \<longrightarrow>
          m_versionOverride (parseOverrideConfig toInt (s1 @ c1 # tok @ c2 # s2) gl)
            = m_versionOverride (parseOverrideConfig toInt (s1 @ c1 # s2) gl)
          \<and> m_extensionOverrides (parseOverrideConfig toInt (s1 @ c1 # tok @ c2 # s2) gl)
            = m_extensionOverrides (parseOverrideConfig toInt (s1 @ c1 # s2) gl)
          \<and> invalidLine tok \<in> set (warnings (parseOverrideConfig toInt (s1 @ c1 # tok @ c2 # s2) gl)))"
    using parseToken_malformed [OF a b, of first] tokens strings
    by (simp add: sameSettings_def)
qed

theorem malformed_token_skipped_witness:
  "\<not> isExtensionToken ''4.x''
   \<and> parseVersionToken decimalToInt (m_version example_gl) ''4.x'' = None
   \<and> ''4.x'' \<noteq> [] \<and> set ''4.x'' \<inter> set override_separators = {}
   \<and> CHR '' '' \<in> set override_separators \<and> CHR '','' \<in> set override_separators
   \<and> m_versionOverride (parseOverrideConfig decimalToInt (''+GL_FOO'' @ CHR '' '' # ''4.x'' @ CHR '','' # ''GL3.3 -GL_BAR'') example_gl)
       = m_versionOverride (parseOverrideConfig decimalToInt (''+GL_FOO'' @ CHR '' '' # ''GL3.3 -GL_BAR'') example_gl)
   \<and> m_extensionOverrides (parseOverrideConfig decimalToInt (''+GL_FOO'' @ CHR '' '' # ''4.x'' @ CHR '','' # ''GL3.3 -GL_BAR'') example_gl)
       = m_extensionOverrides (parseOverrideConfig decimalToInt (''+GL_FOO'' @ CHR '' '' # ''GL3.3 -GL_BAR'') example_gl)
   \<and> invalidLine ''4.x'' \<in> set (warnings (parseOverrideConfig decimalToInt
         (''+GL_FOO'' @ CHR '' '' # ''4.x'' @ CHR '','' # ''GL3.3 -GL_BAR'') example_gl))
   \<and> m_versionOverride (parseOverrideConfig decimalToInt ''+GL_FOO 4.x,GL3.3 -GL_BAR'' example_gl) = 33
   \<and> m_extensionOverrides (parseOverrideConfig decimalToInt ''+GL_FOO 4.x,GL3.3 -GL_BAR'' example_gl)
       = [''-GL_BAR'']"
proof -
  have k: "\<not> isExtensionToken ''4.x''"
    by (simp add: isExtensionToken_def starts_with_def)
  have n: "parseVersionToken decimalToInt (m_version example_gl) ''4.x'' = None"
    by (simp add: parseVersionToken_def starts_with_def find_char_def value_or_def
          u32_max_div_10_def decimalToInt_def digit_val_def Let_def)
  have c: "''4.x'' \<noteq> [] \<and> set ''4.x'' \<inter> set override_separators = {}
      \<and> CHR '' '' \<in> set override_separators \<and> CHR '','' \<in> set override_separators"
    by (simp add: override_separators_def)
  have without: "parseOverrideConfig decimalToInt ''+GL_FOO GL3.3 -GL_BAR'' example_gl
      = example_gl\<lparr>m_versionOverride := 33, m_extensionOverrides := [''-GL_BAR''],
          warnings := [Warning (''Ignoring OpenGL feature overrides before '' @ quoted ''GL3.3'')]\<rparr>"
    by (simp add: parseOverrideConfig_def splitIgnoreEmpty_def override_separators_def
          parseToken_def isExtensionToken_def parseVersionToken_def starts_with_def find_char_def
          value_or_def u32_max_div_10_def decimalToInt_def digit_val_def Let_def example_gl_def)
  show ?thesis
    using k n c without
      malformed_token_skipped [of "''4.x''" decimalToInt example_gl True "[''+GL_FOO'']"
        "[''GL3.3'', ''-GL_BAR'']" "CHR '' ''" "CHR '',''" "''+GL_FOO''" "''GL3.3 -GL_BAR''"]
    by simp
qed

section \<open>Properties of the state flush\<close>

lemmas flush_steps =
  flushCull_def flushFog_def flushDepthTest_def flushDepthWrite_def flushDepthOffset_def emit_def

lemma flush_prefix_keeps:
  "m_state (flushFog (flushCull r)) = m_state r"
  "m_glstate (flushFog (flushCull r)) = m_glstate r"
  "m_hasMSAA (flushFog (flushCull r)) = m_hasMSAA r"
  "m_hasSampleShading (flushFog (flushCull r)) = m_hasSampleShading r"
  "alphaCutoutAntialiasing (flushFog (flushCull r)) = alphaCutoutAntialiasing r"
  by (simp_all add: flush_steps)

lemma use_of_prefix:
  "useSS (flushFog (flushCull r)) = useSS r" "useA2C (flushFog (flushCull r)) = useA2C r"
  by (simp_all add: useSS_def useA2C_def flush_prefix_keeps)

lemma mode_of_prefix:
  "alphaTestMode (flushFog (flushCull r)) = alphaTestMode r"
  "blendAssertion (flushFog (flushCull r)) = blendAssertion r"
  by (simp_all only: alphaTestMode_def blendAssertion_def use_of_prefix flush_prefix_keeps)

lemma alphaTestMode_amended:
  "getAlphaCutout (m_state r) \<Longrightarrow> fst (alphaTestMode r) = amended_testMode r"
  by (simp add: alphaTestMode_def amended_testMode_def useSS_def useA2C_def Let_def)

lemma flush_depth_keeps:
  "m_glsampleShading (flushDepthOffset (flushDepthWrite (flushDepthTest r))) = m_glsampleShading r"
  "m_glalphaToCoverage (flushDepthOffset (flushDepthWrite (flushDepthTest r))) = m_glalphaToCoverage r"
  "m_glalphaFunc (flushDepthOffset (flushDepthWrite (flushDepthTest r))) = m_glalphaFunc r"
  "m_state (flushDepthOffset (flushDepthWrite (flushDepthTest r))) = m_state r"
  by (simp_all add: flush_steps Let_def)

lemma applySampleShading_fields:
  "m_glsampleShading (applySampleShading t r) = (t = TestSS)"
  "m_glalphaToCoverage (applySampleShading t r) = m_glalphaToCoverage r"
  "m_glalphaFunc (applySampleShading t r) = m_glalphaFunc r"
  "m_state (applySampleShading t r) = m_state r"
  by (simp_all add: applySampleShading_def emit_def)

lemma applyAlphaToCoverage_fields:
  "m_glsampleShading (applyAlphaToCoverage t r) = m_glsampleShading r"
  "m_glalphaToCoverage (applyAlphaToCoverage t r) = (t = TestA2C)"
  "m_glalphaFunc (applyAlphaToCoverage t r) = m_glalphaFunc r"
  "m_state (applyAlphaToCoverage t r) = m_state r"
  by (simp_all add: applyAlphaToCoverage_def emit_def)

lemma applyAlphaFunc_fields:
  "m_glsampleShading (applyAlphaFunc t r) = m_glsampleShading r"
  "m_glalphaToCoverage (applyAlphaFunc t r) = m_glalphaToCoverage r"
  "t \<noteq> TestNone \<Longrightarrow>
   m_glalphaFunc (applyAlphaFunc t r) = (if t = TestConservative \<or> t = TestA2C then 0 else 1 / 2)"
  "m_state (applyAlphaFunc t r) = m_state r"
  by (simp_all add: applyAlphaFunc_def emit_def)

lemma applyBlendFunc_fields:
  "m_glsampleShading (applyBlendFunc s d r) = m_glsampleShading r"
  "m_glalphaToCoverage (applyBlendFunc s d r) = m_glalphaToCoverage r"
  "m_glalphaFunc (applyBlendFunc s d r) = m_glalphaFunc r"
  "m_state (applyBlendFunc s d r) = m_state r"
  by (simp_all add: applyBlendFunc_def emit_def Let_def)

lemma blend_block_result:
  "m_glsampleShading (applyBlendFunc s d (applyAlphaFunc t (applyAlphaToCoverage t
      (applySampleShading t r)))) = (t = TestSS)"
  "m_glalphaToCoverage (applyBlendFunc s d (applyAlphaFunc t (applyAlphaToCoverage t
      (applySampleShading t r)))) = (t = TestA2C)"
  "t \<noteq> TestNone \<Longrightarrow>
   m_glalphaFunc (applyBlendFunc s d (applyAlphaFunc t (applyAlphaToCoverage t
      (applySampleShading t r)))) = (if t = TestConservative \<or> t = TestA2C then 0 else 1 / 2)"
  "m_state (applyBlendFunc s d (applyAlphaFunc t (applyAlphaToCoverage t
      (applySampleShading t r)))) = m_state r"
  by (simp_all add: applySampleShading_fields applyAlphaToCoverage_fields applyAlphaFunc_fields
        applyBlendFunc_fields)

lemma flushBlend_changed:
  "blendPairChanged r \<Longrightarrow> \<not> (debug \<and> \<not> blendAssertion r) \<Longrightarrow>
   flushBlend debug (flushFog (flushCull r)) =
     Some (applyBlendFunc (snd (alphaTestMode r)) (getBlendDst (m_state r))
            (applyAlphaFunc (fst (alphaTestMode r))
              (applyAlphaToCoverage (fst (alphaTestMode r))
                (applySampleShading (fst (alphaTestMode r)) (flushFog (flushCull r))))))"
  by (auto simp: flushBlend_def blendPairChanged_def mode_of_prefix flush_prefix_keeps
        split: prod.splits)

lemma changed_differs: "blendPairChanged r \<Longrightarrow> m_glstate r \<noteq> m_state r"
  by (auto simp: blendPairChanged_def)

lemma texture_stages_keep:
  "m_glsampleShading (applyTextureStages r) = m_glsampleShading r"
  "m_glalphaToCoverage (applyTextureStages r) = m_glalphaToCoverage r"
  "m_glalphaFunc (applyTextureStages r) = m_glalphaFunc r"
  "m_state (applyTextureStages r) = m_state r"
  "m_glstate (applyTextureStages r) = m_glstate r"
  by (simp_all add: applyTextureStages_def)

lemma flushState_returns:
  "\<not> (debug \<and> \<not> blendAssertion r) \<Longrightarrow> \<exists>r'. flushState debug r = Some r'"
  by (auto simp: flushState_def flushBlend_def mode_of_prefix split: option.splits prod.splits)

lemma flushBlend_state:
  "flushBlend debug q = Some q' \<Longrightarrow> m_state q' = m_state q"
  by (auto simp: flushBlend_def blend_block_result split: if_splits prod.splits)

lemma flushState_converges:
  assumes "flushState debug r = Some r1"
  shows "m_glstate r1 = m_state r1 \<and> m_state r1 = m_state r"
proof (cases "m_glstate r = m_state r")
  case True
  then show ?thesis using assms by (auto simp: flushState_def texture_stages_keep)
next
  case False
  then obtain q where q: "flushBlend debug (flushFog (flushCull r)) = Some q"
    and r1: "r1 = applyTextureStages
        ((flushDepthOffset (flushDepthWrite (flushDepthTest q)))\<lparr>m_glstate := m_state r\<rparr>)"
    using assms by (auto simp: flushState_def split: option.splits)
  have "m_state q = m_state r" using flushBlend_state [OF q] by (simp add: flush_prefix_keeps)
  then show ?thesis unfolding r1 by (simp add: texture_stages_keep flush_depth_keeps)
qed

lemma flushState_equal:
  "m_glstate r = m_state r \<Longrightarrow> flushState debug r = Some (applyTextureStages r)"
  by (simp add: flushState_def)

lemma no_state_calls: "filter isStateCall (map TextureStage_apply is) = []"
  by (induction "is") simp_all

lemma example_flush: "flushState True example_renderer = Some example_flushed"
  by (simp add: example_renderer_def example_flushed_def example_desired_def reinit_state_def
        flushState_def flushBlend_def flush_steps blendAssertion_def alphaTestMode_def useSS_def
        useA2C_def applyBlendFunc_def applyAlphaFunc_def applyAlphaToCoverage_def
        applySampleShading_def applyTextureStages_def Let_def)

text \<open>
  C2, as the specification states it, fails: with MSAA active and fuzzy cutout
  antialiasing configured, a desired state with alpha cutout and the blend pair
  (destination colour, one), which does not use source alpha, is flushed with the plain
  alpha threshold 0.5 and without alpha to coverage, where the stated rule selects alpha
  to coverage.
\<close>

theorem alpha_to_coverage_counterexample:
  "spec_testMode example_renderer = TestA2C
   \<and> fst (alphaTestMode example_renderer) = TestStrict
   \<and> map_option m_glalphaToCoverage (flushState True example_renderer) = Some False
   \<and> map_option m_glalphaFunc (flushState True example_renderer) = Some (1 / 2)"
proof -
  have "spec_testMode example_renderer = TestA2C"
    by (simp add: spec_testMode_def example_renderer_def example_desired_def)
  moreover have "fst (alphaTestMode example_renderer) = TestStrict"
    by (simp add: alphaTestMode_def useSS_def useA2C_def example_renderer_def example_desired_def)
  ultimately show ?thesis
    by (simp add: example_flush) (simp add: example_flushed_def)
qed

text \<open>
  C2, amended. When the desired state has alpha cutout enabled and the blend factors or
  the alpha cutout flag changed, \<^verbatim>\<open>flushState\<close> selects the test mode as follows. For the
  pair (one, zero), that is without blending: sample shading if the capability is
  available and MSAA is active and configured for it, else alpha to coverage if MSAA is
  active and configured for it, else the alpha threshold 0.5. For the pair (one, one) and
  for every pair whose source factor is source alpha or whose destination factor is
  inverse source alpha: the conservative mode (threshold 0). For every other pair: sample
  shading under the same condition, else the alpha threshold 0.5; alpha to coverage is
  never selected while blending. The flush returns, unless the debug assertion on the
  blend factors fails.
\<close>

theorem alpha_test_selection:
  "(getAlphaCutout (m_state r) \<and> blendPairChanged r \<and> flushState debug r = Some r' \<longrightarrow>
     fst (alphaTestMode r) = amended_testMode r
     \<and> m_glsampleShading r' = (amended_testMode r = TestSS)
     \<and> m_glalphaToCoverage r' = (amended_testMode r = TestA2C)
     \<and> m_glalphaFunc r' =
         (if amended_testMode r = TestConservative \<or> amended_testMode r = TestA2C then 0 else 1 / 2))
   \<and> (\<exists>r'. flushState False r = Some r')
   \<and> (blendAssertion r \<longrightarrow> (\<exists>r'. flushState True r = Some r'))"
proof (intro conjI impI)
  assume a: "getAlphaCutout (m_state r) \<and> blendPairChanged r \<and> flushState debug r = Some r'"
  then have cut: "getAlphaCutout (m_state r)" and ch: "blendPairChanged r"
    and fl: "flushState debug r = Some r'" by simp_all
  have m: "fst (alphaTestMode r) = amended_testMode r" by (rule alphaTestMode_amended [OF cut])
  have nn: "amended_testMode r \<noteq> TestNone"
    by (simp add: amended_testMode_def Let_def)
  have ok: "\<not> (debug \<and> \<not> blendAssertion r)"
    using fl changed_differs [OF ch] ch
    by (auto simp: flushState_def flushBlend_def blendPairChanged_def mode_of_prefix
          flush_prefix_keeps split: option.splits if_splits)
  let ?b = "applyBlendFunc (snd (alphaTestMode r)) (getBlendDst (m_state r))
            (applyAlphaFunc (amended_testMode r)
              (applyAlphaToCoverage (amended_testMode r)
                (applySampleShading (amended_testMode r) (flushFog (flushCull r)))))"
  have r': "r' = applyTextureStages
      ((flushDepthOffset (flushDepthWrite (flushDepthTest ?b)))\<lparr>m_glstate := m_state r\<rparr>)"
    using fl changed_differs [OF ch] flushBlend_changed [OF ch ok] m
    by (simp add: flushState_def)
  show "fst (alphaTestMode r) = amended_testMode r" by (rule m)
  show "m_glsampleShading r' = (amended_testMode r = TestSS)"
    unfolding r' by (simp add: texture_stages_keep flush_depth_keeps blend_block_result)
  show "m_glalphaToCoverage r' = (amended_testMode r = TestA2C)"
    unfolding r' by (simp add: texture_stages_keep flush_depth_keeps blend_block_result)
  show "m_glalphaFunc r' =
         (if amended_testMode r = TestConservative \<or> amended_testMode r = TestA2C then 0 else 1 / 2)"
    unfolding r' using nn by (simp add: texture_stages_keep flush_depth_keeps blend_block_result)
next
  show "\<exists>r'. flushState False r = Some r'" by (rule flushState_returns) simp
next
  assume "blendAssertion r"
  then show "\<exists>r'. flushState True r = Some r'" by (intro flushState_returns) simp
qed

theorem alpha_test_selection_witness:
  "getAlphaCutout (m_state example_renderer) \<and> blendPairChanged example_renderer
   \<and> flushState True example_renderer = Some example_flushed
   \<and> amended_testMode example_renderer = TestStrict
   \<and> \<not> m_glsampleShading example_flushed \<and> \<not> m_glalphaToCoverage example_flushed
   \<and> m_glalphaFunc example_flushed = 1 / 2
   \<and> (\<exists>r'. flushState True example_renderer = Some r')"
proof -
  have h: "getAlphaCutout (m_state example_renderer) \<and> blendPairChanged example_renderer
      \<and> blendAssertion example_renderer"
    by (simp add: example_renderer_def example_desired_def reinit_state_def blendPairChanged_def
          blendAssertion_def)
  have m: "amended_testMode example_renderer = TestStrict"
    by (simp add: amended_testMode_def example_renderer_def example_desired_def Let_def)
  have sel: "m_glsampleShading example_flushed = (amended_testMode example_renderer = TestSS)
      \<and> m_glalphaToCoverage example_flushed = (amended_testMode example_renderer = TestA2C)
      \<and> m_glalphaFunc example_flushed =
          (if amended_testMode example_renderer = TestConservative
              \<or> amended_testMode example_renderer = TestA2C then 0 else 1 / 2)"
    using h example_flush alpha_test_selection [of example_renderer True example_flushed]
    by blast
  have ret: "\<exists>r'. flushState True example_renderer = Some r'"
    using h alpha_test_selection [of example_renderer True example_flushed]
    by blast
  show ?thesis
    using h example_flush sel ret unfolding m by simp
qed

text \<open>
  C4. After a flush that returns, the applied state equals the desired state, which the
  flush leaves as it was; a second flush right after it issues no call that changes
  pipeline state, it only applies the texture stages again; and a flush that finds the
  two states equal issues no such call either. A flush returns whenever the debug
  assertion on the blend factors holds or is compiled out.
\<close>

theorem flushState_idempotent:
  "(flushState debug r = Some r1 \<longrightarrow>
      m_glstate r1 = m_state r1 \<and> m_state r1 = m_state r
      \<and> flushState debug r1 = Some (applyTextureStages r1))
   \<and> (m_glstate r = m_state r \<longrightarrow> flushState debug r = Some (applyTextureStages r))
   \<and> applyTextureStages r =
        r\<lparr>gl_calls := gl_calls r @ map TextureStage_apply [0 ..< Suc (maxTextureStage r)]\<rparr>
   \<and> filter isStateCall (map TextureStage_apply [0 ..< Suc (maxTextureStage r)]) = []
   \<and> (\<exists>r'. flushState False r = Some r')
   \<and> (blendAssertion r \<longrightarrow> (\<exists>r'. flushState True r = Some r'))"
proof (intro conjI impI)
  assume f: "flushState debug r = Some r1"
  show "m_glstate r1 = m_state r1" "m_state r1 = m_state r"
    using flushState_converges [OF f] by simp_all
  show "flushState debug r1 = Some (applyTextureStages r1)"
    using flushState_converges [OF f] by (simp add: flushState_equal)
next
  assume "m_glstate r = m_state r"
  then show "flushState debug r = Some (applyTextureStages r)" by (rule flushState_equal)
next
  show "applyTextureStages r =
        r\<lparr>gl_calls := gl_calls r @ map TextureStage_apply [0 ..< Suc (maxTextureStage r)]\<rparr>"
    by (simp add: applyTextureStages_def)
  show "filter isStateCall (map TextureStage_apply [0 ..< Suc (maxTextureStage r)]) = []"
    by (rule no_state_calls)
  show "\<exists>r'. flushState False r = Some r'" by (rule flushState_returns) simp
next
  assume "blendAssertion r"
  then show "\<exists>r'. flushState True r = Some r'" by (intro flushState_returns) simp
qed

theorem flushState_idempotent_witness:
  "flushState True example_renderer = Some example_flushed
   \<and> m_glstate example_flushed = m_state example_flushed
   \<and> flushState True example_flushed = Some (applyTextureStages example_flushed)
   \<and> gl_calls (applyTextureStages example_flushed)
       = gl_calls example_flushed @ [TextureStage_apply 0, TextureStage_apply 1]
   \<and> (\<exists>r'. flushState True example_flushed = Some r')"
proof -
  have b: "blendAssertion example_flushed"
    by (simp add: blendAssertion_def example_flushed_def example_desired_def)
  have calls: "gl_calls (applyTextureStages example_flushed)
       = gl_calls example_flushed @ [TextureStage_apply 0, TextureStage_apply 1]"
    by (simp add: applyTextureStages_def example_flushed_def)
  have first: "m_glstate example_flushed = m_state example_flushed"
    using example_flush flushState_idempotent [of True example_renderer example_flushed]
    by blast
  have second: "flushState True example_flushed = Some (applyTextureStages example_flushed)"
    using first flushState_idempotent [of True example_flushed example_flushed]
    by blast
  have ret: "\<exists>r'. flushState True example_flushed = Some r'"
    using b flushState_idempotent [of True example_flushed example_flushed]
    by blast
  show ?thesis
    using calls example_flush first second ret by blast
qed

section \<open>Properties of the frame rate cap\<close>

lemma targetFps_pos: "fpsLimit cfg \<noteq> 0 \<Longrightarrow> 1 \<le> targetFps cfg displayRefresh"
  by (simp add: targetFps_def Let_def)

lemma targetDuration_nonneg: "fpsLimit cfg \<noteq> 0 \<Longrightarrow> 0 \<le> targetDuration cfg displayRefresh"
  using targetFps_pos [of cfg displayRefresh]
  by (simp add: targetDuration_def pos_imp_zdiv_nonneg_iff)

lemma arx_clamp_range: "lo \<le> hi \<Longrightarrow> lo \<le> arx_clamp v lo hi \<and> arx_clamp v lo hi \<le> hi"
  by (simp add: arx_clamp_def)

lemma arx_clamp_max_min: "lo \<le> hi \<Longrightarrow> arx_clamp v lo hi = max lo (min hi v)"
  by (simp add: arx_clamp_def)

lemma limitFrameRate_delta:
  "fpsLimit cfg \<noteq> 0 \<Longrightarrow> \<not> benchmark \<Longrightarrow>
   m_frameDelta (limitFrameRate cfg benchmark displayRefresh now t) =
     arx_clamp (m_frameDelta t + targetDuration cfg displayRefresh - (now - m_frameStart t))
       (- targetDuration cfg displayRefresh) (targetDuration cfg displayRefresh)"
  by (simp add: limitFrameRate_def Let_def)

lemma limitFrameRate_slept:
  "fpsLimit cfg \<noteq> 0 \<Longrightarrow> \<not> benchmark \<Longrightarrow>
   sleptBy t (limitFrameRate cfg benchmark displayRefresh now t) =
     max 0 (m_frameDelta (limitFrameRate cfg benchmark displayRefresh now t))"
  by (simp add: limitFrameRate_def sleptBy_def Let_def)

lemma runFrames_range:
  assumes "fpsLimit cfg \<noteq> 0" "\<not> benchmark"
    and "\<bar>m_frameDelta t\<bar> \<le> targetDuration cfg displayRefresh"
  shows "\<bar>m_frameDelta (runFrames cfg benchmark displayRefresh nows t)\<bar>
           \<le> targetDuration cfg displayRefresh"
  using assms(3)
proof (induction nows arbitrary: t)
  case Nil
  then show ?case by simp
next
  case (Cons now nows)
  have T: "- targetDuration cfg displayRefresh \<le> targetDuration cfg displayRefresh"
    using targetDuration_nonneg [OF assms(1), of displayRefresh] by simp
  have "\<bar>m_frameDelta (limitFrameRate cfg benchmark displayRefresh now t)\<bar>
          \<le> targetDuration cfg displayRefresh"
    using arx_clamp_range [OF T,
        of "m_frameDelta t + targetDuration cfg displayRefresh - (now - m_frameStart t)"]
      limitFrameRate_delta [OF assms(1,2), of displayRefresh now t]
    by (simp add: abs_le_iff)
  then show ?case using Cons.IH by simp
qed

text \<open>
  C6. With the frame rate cap in force (a limit other than 0, no benchmark) and the
  target duration \<open>T\<close> it fixes, each frame sets the accumulated delta to
  \<open>delta + T - actualDuration\<close> clamped to \<open>[-T, T]\<close>, where the actual duration is
  the time since the previous frame start; the delta therefore lies in \<open>[-T, T]\<close> after
  every frame of every run, and the time slept in a frame is \<open>max 0 delta\<close> for the
  updated delta.
\<close>

theorem frame_delta_clamped:
  "fpsLimit cfg \<noteq> 0 \<and> \<not> benchmark \<longrightarrow>
     0 \<le> targetDuration cfg displayRefresh
     \<and> m_frameDelta (limitFrameRate cfg benchmark displayRefresh now t)
         = max (- targetDuration cfg displayRefresh)
             (min (targetDuration cfg displayRefresh)
                (m_frameDelta t + targetDuration cfg displayRefresh - (now - m_frameStart t)))
     \<and> - targetDuration cfg displayRefresh
          \<le> m_frameDelta (limitFrameRate cfg benchmark displayRefresh now t)
     \<and> m_frameDelta (limitFrameRate cfg benchmark displayRefresh now t)
          \<le> targetDuration cfg displayRefresh
     \<and> sleptBy t (limitFrameRate cfg benchmark displayRefresh now t)
         = max 0 (m_frameDelta (limitFrameRate cfg benchmark displayRefresh now t))
     \<and> - targetDuration cfg displayRefresh
          \<le> m_frameDelta (runFrames cfg benchmark displayRefresh nows FrameTimer_init)
     \<and> m_frameDelta (runFrames cfg benchmark displayRefresh nows FrameTimer_init)
          \<le> targetDuration cfg displayRefresh"
proof (intro impI, elim conjE)
  assume a: "fpsLimit cfg \<noteq> 0" and b: "\<not> benchmark"
  have T0: "0 \<le> targetDuration cfg displayRefresh" by (rule targetDuration_nonneg [OF a])
  then have T: "- targetDuration cfg displayRefresh \<le> targetDuration cfg displayRefresh" by simp
  have init: "\<bar>m_frameDelta FrameTimer_init\<bar> \<le> targetDuration cfg displayRefresh"
    using T0 by (simp add: FrameTimer_init_def)
  have run: "\<bar>m_frameDelta (runFrames cfg benchmark displayRefresh nows FrameTimer_init)\<bar>
      \<le> targetDuration cfg displayRefresh"
    by (rule runFrames_range [OF a b init])
  show "0 \<le> targetDuration cfg displayRefresh
     \<and> m_frameDelta (limitFrameRate cfg benchmark displayRefresh now t)
         = max (- targetDuration cfg displayRefresh)
             (min (targetDuration cfg displayRefresh)
                (m_frameDelta t + targetDuration cfg displayRefresh - (now - m_frameStart t)))
     \<and> - targetDuration cfg displayRefresh
          \<le> m_frameDelta (limitFrameRate cfg benchmark displayRefresh now t)
     \<and> m_frameDelta (limitFrameRate cfg benchmark displayRefresh now t)
          \<le> targetDuration cfg displayRefresh
     \<and> sleptBy t (limitFrameRate cfg benchmark displayRefresh now t)
         = max 0 (m_frameDelta (limitFrameRate cfg benchmark displayRefresh now t))
     \<and> - targetDuration cfg displayRefresh
          \<le> m_frameDelta (runFrames cfg benchmark displayRefresh nows FrameTimer_init)
     \<and> m_frameDelta (runFrames cfg benchmark displayRefresh nows FrameTimer_init)
          \<le> targetDuration cfg displayRefresh"
    using T0 run arx_clamp_range [OF T] arx_clamp_max_min [OF T]
      limitFrameRate_delta [OF a b] limitFrameRate_slept [OF a b]
    by (simp add: abs_le_iff)
qed

theorem frame_delta_clamped_witness:
  "fpsLimit example_cfg \<noteq> 0
   \<and> targetDuration example_cfg 60 = 16666
   \<and> m_frameDelta (limitFrameRate example_cfg False 60 17000 example_timer) = 16332
   \<and> sleptBy example_timer (limitFrameRate example_cfg False 60 17000 example_timer) = 16332
   \<and> m_frameDelta (limitFrameRate example_cfg False 60 80000 example_timer) = - 16666
   \<and> sleptBy example_timer (limitFrameRate example_cfg False 60 80000 example_timer) = 0
   \<and> runFrames example_cfg False 60 [1000] FrameTimer_init = example_timer"
proof -
  have T: "targetDuration example_cfg 60 = 16666"
    by (simp add: targetDuration_def targetFps_def example_cfg_def)
  have c: "fpsLimit example_cfg \<noteq> 0 \<and> \<not> False" by (simp add: example_cfg_def)
  have run: "runFrames example_cfg False 60 [1000] FrameTimer_init = example_timer"
    by (simp add: limitFrameRate_def T arx_clamp_def FrameTimer_init_def example_timer_def Let_def)
      (simp add: example_cfg_def)
  show ?thesis
    using c T run
      frame_delta_clamped [of example_cfg False 60 17000 example_timer "[1000]"]
      frame_delta_clamped [of example_cfg False 60 80000 example_timer "[1000]"]
    by (simp add: example_timer_def)
qed

section \<open>Properties of the event pump\<close>

lemma onClose_loop_all:
  "\<forall>l\<in>set ls. closeAnswer l \<Longrightarrow> onClose_loop ls t = (True, t @ closeCalls ls)"
  by (induction ls arbitrary: t) (simp_all add: closeCalls_def)

lemma onClose_loop_veto:
  "\<forall>l\<in>set pre. closeAnswer l \<Longrightarrow> \<not> closeAnswer v \<Longrightarrow>
   onClose_loop (pre @ v # post) t = (False, t @ closeCalls (pre @ [v]))"
  by (induction pre arbitrary: t) (simp_all add: closeCalls_def)

lemma onClose_veto:
  "m_listeners w = pre @ [v] @ post \<Longrightarrow> \<forall>l\<in>set pre. closeAnswer l \<Longrightarrow> \<not> closeAnswer v \<Longrightarrow>
   onClose w = (False, w\<lparr>trace := trace w @ closeCalls (pre @ [v])\<rparr>)"
  by (simp add: onClose_def onClose_loop_veto)

lemma onClose_all:
  "\<forall>l\<in>set (m_listeners w). closeAnswer l \<Longrightarrow>
   onClose w = (True, w\<lparr>trace := trace w @ closeCalls (m_listeners w)\<rparr>)"
  by (simp add: onClose_def onClose_loop_all)

text \<open>
  C5. When a close is requested, the close handlers are consulted in registration order.
  If a listener answers false after all listeners before it answered true, exactly these
  listeners have been consulted and none after it, the filter drops the quit event, so
  that pumping the events fires no Destroyed notification and leaves the window as it
  was but for the trace of the close handlers. If all listeners answer true, all are
  consulted, the event passes the filter, and pumping it fires Destroyed for every
  listener.
\<close>

theorem close_veto:
  "(s_mainWindow w \<and> sdl_queue w = [] \<and> renderer_initialized w
      \<and> m_listeners w = pre @ [v] @ post \<and> (\<forall>l\<in>set pre. closeAnswer l) \<and> \<not> closeAnswer v \<longrightarrow>
      onClose w = (False, w\<lparr>trace := trace w @ closeCalls (pre @ [v])\<rparr>)
      \<and> fst (eventFilter SDL_QUIT w) = 0
      \<and> sdl_post SDL_QUIT w = w\<lparr>trace := trace w @ closeCalls (pre @ [v])\<rparr>
      \<and> processEvents False (sdl_post SDL_QUIT w)
          = Some (w\<lparr>trace := trace w @ closeCalls (pre @ [v])\<rparr>))
   \<and> (s_mainWindow w \<and> sdl_queue w = [] \<and> (\<forall>l\<in>set (m_listeners w). closeAnswer l) \<longrightarrow>
      onClose w = (True, w\<lparr>trace := trace w @ closeCalls (m_listeners w)\<rparr>)
      \<and> fst (eventFilter SDL_QUIT w) = 1
      \<and> processEvents waitForEvent (sdl_post SDL_QUIT w)
          = Some (w\<lparr>trace := trace w @ closeCalls (m_listeners w) @ destroyCalls (m_listeners w)\<rparr>))"
proof (intro conjI impI)
  assume a: "s_mainWindow w \<and> sdl_queue w = [] \<and> renderer_initialized w
      \<and> m_listeners w = pre @ [v] @ post \<and> (\<forall>l\<in>set pre. closeAnswer l) \<and> \<not> closeAnswer v"
  then have oc: "onClose w = (False, w\<lparr>trace := trace w @ closeCalls (pre @ [v])\<rparr>)"
    using onClose_veto [of w pre v post] by blast
  show "onClose w = (False, w\<lparr>trace := trace w @ closeCalls (pre @ [v])\<rparr>)" by (rule oc)
  show "fst (eventFilter SDL_QUIT w) = 0" using a oc by (simp add: eventFilter_def)
  have post: "sdl_post SDL_QUIT w = w\<lparr>trace := trace w @ closeCalls (pre @ [v])\<rparr>"
    using a oc by (simp add: sdl_post_def eventFilter_def)
  show "sdl_post SDL_QUIT w = w\<lparr>trace := trace w @ closeCalls (pre @ [v])\<rparr>" by (rule post)
  show "processEvents False (sdl_post SDL_QUIT w)
          = Some (w\<lparr>trace := trace w @ closeCalls (pre @ [v])\<rparr>)"
    using a by (simp add: post processEvents_def afterEvents_def)
next
  assume a: "s_mainWindow w \<and> sdl_queue w = [] \<and> (\<forall>l\<in>set (m_listeners w). closeAnswer l)"
  then have oc: "onClose w = (True, w\<lparr>trace := trace w @ closeCalls (m_listeners w)\<rparr>)"
    using onClose_all [of w] by blast
  show "onClose w = (True, w\<lparr>trace := trace w @ closeCalls (m_listeners w)\<rparr>)" by (rule oc)
  show "fst (eventFilter SDL_QUIT w) = 1" using a oc by (simp add: eventFilter_def)
  have post: "sdl_post SDL_QUIT w
      = w\<lparr>trace := trace w @ closeCalls (m_listeners w), sdl_queue := [SDL_QUIT]\<rparr>"
    using a oc by (simp add: sdl_post_def eventFilter_def)
  show "processEvents waitForEvent (sdl_post SDL_QUIT w)
          = Some (w\<lparr>trace := trace w @ closeCalls (m_listeners w) @ destroyCalls (m_listeners w)\<rparr>)"
    using a by (simp add: post processEvents_def onDestroy_def notifyAll_def destroyCalls_def)
qed

theorem close_veto_witness:
  "processEvents False (sdl_post SDL_QUIT example_vetoing)
     = Some (example_vetoing\<lparr>trace := [(1, CloseWindow), (2, CloseWindow)]\<rparr>)
   \<and> fst (eventFilter SDL_QUIT example_vetoing) = 0
   \<and> processEvents True (sdl_post SDL_QUIT example_idle)
     = Some (example_idle\<lparr>trace := [(1, CloseWindow), (2, CloseWindow), (3, CloseWindow),
                                      (1, DestroyWindow), (2, DestroyWindow), (3, DestroyWindow)]\<rparr>)
   \<and> fst (eventFilter SDL_QUIT example_idle) = 1"
proof -
  have v: "s_mainWindow example_vetoing \<and> sdl_queue example_vetoing = []
      \<and> renderer_initialized example_vetoing
      \<and> m_listeners example_vetoing
          = [\<lparr>ident = 1, closeAnswer = True\<rparr>] @ [\<lparr>ident = 2, closeAnswer = False\<rparr>]
            @ [\<lparr>ident = 3, closeAnswer = True\<rparr>]
      \<and> (\<forall>l\<in>set [\<lparr>ident = 1, closeAnswer = True\<rparr>]. closeAnswer l)
      \<and> \<not> closeAnswer \<lparr>ident = 2, closeAnswer = False\<rparr>"
    by (simp add: example_vetoing_def example_idle_def example_window_def)
  have i: "s_mainWindow example_idle \<and> sdl_queue example_idle = []
      \<and> (\<forall>l\<in>set (m_listeners example_idle). closeAnswer l)"
    by (simp add: example_idle_def example_window_def)
  have tv: "trace example_vetoing = []" "trace example_idle = []"
    "m_listeners example_idle = [\<lparr>ident = 1, closeAnswer = True\<rparr>,
        \<lparr>ident = 2, closeAnswer = True\<rparr>, \<lparr>ident = 3, closeAnswer = True\<rparr>]"
    by (simp_all add: example_vetoing_def example_idle_def example_window_def)
  have veto: "fst (eventFilter SDL_QUIT example_vetoing) = 0
      \<and> processEvents False (sdl_post SDL_QUIT example_vetoing)
          = Some (example_vetoing\<lparr>trace := trace example_vetoing
               @ closeCalls ([\<lparr>ident = 1, closeAnswer = True\<rparr>] @ [\<lparr>ident = 2, closeAnswer = False\<rparr>])\<rparr>)"
    using v close_veto [of example_vetoing "[\<lparr>ident = 1, closeAnswer = True\<rparr>]"
        "\<lparr>ident = 2, closeAnswer = False\<rparr>" "[\<lparr>ident = 3, closeAnswer = True\<rparr>]" True]
    by blast
  have pass: "fst (eventFilter SDL_QUIT example_idle) = 1
      \<and> processEvents True (sdl_post SDL_QUIT example_idle)
          = Some (example_idle\<lparr>trace := trace example_idle
               @ closeCalls (m_listeners example_idle) @ destroyCalls (m_listeners example_idle)\<rparr>)"
    using i close_veto [of example_idle "[]" "\<lparr>ident = 2, closeAnswer = False\<rparr>" "[]" True]
    by blast
  show ?thesis
    using veto pass by (simp add: tv closeCalls_def destroyCalls_def)
qed

lemma resizeNotifications_append:
  "resizeNotifications (t @ u) = resizeNotifications t @ resizeNotifications u"
  by (simp add: resizeNotifications_def)

lemma resizeNotifications_other:
  "cb \<noteq> ResizeWindow \<Longrightarrow> resizeNotifications (map (\<lambda>l. (ident l, cb)) ls) = []"
  by (induction ls) (simp_all add: resizeNotifications_def)

lemma notifyAll_fields:
  "m_mode (notifyAll cb w) = m_mode w" "m_fullscreen (notifyAll cb w) = m_fullscreen w"
  "renderer_initialized (notifyAll cb w) = renderer_initialized w"
  "cb \<noteq> ResizeWindow \<Longrightarrow> resizeNotifications (trace (notifyAll cb w)) = resizeNotifications (trace w)"
  by (simp_all add: notifyAll_def resizeNotifications_append resizeNotifications_other)

lemma handleWindowEvent_fullscreen:
  "m_fullscreen w \<Longrightarrow> sameSize (handleWindowEvent ev a b w) w"
  by (cases ev)
    (simp_all add: sameSize_def onShow_def onRestore_def onPaint_def onMinimize_def onMaximize_def
       onFocus_def onMove_def notifyAll_fields Let_def)

lemma handleEvent_fullscreen:
  "m_fullscreen w \<Longrightarrow> sameSize (snd (handleEvent e w)) w"
  using handleWindowEvent_fullscreen
  by (cases e) (simp_all add: sameSize_def onDestroy_def onDroppedFile_def notifyAll_fields)

lemma eventLoop_fullscreen:
  "m_fullscreen w \<Longrightarrow> renderer_initialized w \<Longrightarrow> sameSize (eventLoop es w) w"
proof (induction es arbitrary: w)
  case Nil
  then show ?case by (simp add: afterEvents_def sameSize_def)
next
  case (Cons e es)
  let ?q = "w\<lparr>sdl_queue := es\<rparr>"
  have q: "m_fullscreen ?q" "renderer_initialized ?q" using Cons.prems by simp_all
  have h: "sameSize (snd (handleEvent e ?q)) ?q" by (rule handleEvent_fullscreen [OF q(1)])
  show ?case
  proof (cases "fst (handleEvent e ?q)")
    case False
    then have "eventLoop (e # es) w = snd (handleEvent e ?q)"
      by (simp add: case_prod_beta)
    then show ?thesis using h by (simp add: sameSize_def)
  next
    case True
    let ?n = "input_onEvent e (snd (handleEvent e ?q))"
    have step: "eventLoop (e # es) w = eventLoop es ?n"
      using True by (simp add: case_prod_beta)
    have n: "sameSize ?n ?q" using h by (simp add: sameSize_def input_onEvent_def)
    then have "m_fullscreen ?n" "renderer_initialized ?n" using q by (simp_all add: sameSize_def)
    from Cons.IH [OF this] n show ?thesis unfolding step by (simp add: sameSize_def)
  qed
qed

lemma mode_differs: "s \<noteq> resolution m \<Longrightarrow> \<lparr>resolution = s, refresh = r\<rparr> \<noteq> m"
  by auto

text \<open>
  C8. While the fullscreen flag is set, the dispatch of a size change event changes
  nothing at all, whatever size the event carries: no Resize notification, no change of
  the cached mode. Pumping any queue of events in that state, with the renderer
  initialized, returns with the cached mode as it was and without a Resize notification.
  An explicit \<^verbatim>\<open>updateSize()\<close> sets the cached size to the size of the window, and
  notifies every listener of the resize when that size differs from the cached one.
\<close>

theorem resize_suppressed_fullscreen:
  "(m_fullscreen w \<longrightarrow>
      handleEvent (SDL_WINDOWEVENT SDL_WINDOWEVENT_SIZE_CHANGED a b) w = (True, w))
   \<and> (m_fullscreen w \<and> renderer_initialized w \<and> \<not> (waitForEvent \<and> sdl_queue w = []) \<longrightarrow>
      (\<exists>w'. processEvents waitForEvent w = Some w' \<and> m_mode w' = m_mode w
         \<and> resizeNotifications (trace w') = resizeNotifications (trace w)))
   \<and> resolution (m_mode (updateSize False w)) = sdl_size w
   \<and> (sdl_size w \<noteq> resolution (m_mode w) \<longrightarrow>
        trace (updateSize False w) = trace w @ resizeCalls (m_listeners w))"
proof (intro conjI impI)
  assume "m_fullscreen w"
  then show "handleEvent (SDL_WINDOWEVENT SDL_WINDOWEVENT_SIZE_CHANGED a b) w = (True, w)" by simp
next
  assume a: "m_fullscreen w \<and> renderer_initialized w \<and> \<not> (waitForEvent \<and> sdl_queue w = [])"
  then show "\<exists>w'. processEvents waitForEvent w = Some w' \<and> m_mode w' = m_mode w
         \<and> resizeNotifications (trace w') = resizeNotifications (trace w)"
    using eventLoop_fullscreen [of w "sdl_queue w"] by (simp add: processEvents_def sameSize_def)
next
  show "resolution (m_mode (updateSize False w)) = sdl_size w"
    using mode_differs [of "sdl_size w" "m_mode w"]
    by (simp add: updateSize_def Let_def onResize_def notifyAll_def renderer_SetViewport_def
          renderer_afterResize_def)
next
  assume "sdl_size w \<noteq> resolution (m_mode w)"
  then show "trace (updateSize False w) = trace w @ resizeCalls (m_listeners w)"
    using mode_differs [of "sdl_size w" "m_mode w"]
    by (simp add: updateSize_def Let_def onResize_def notifyAll_def renderer_SetViewport_def
          renderer_afterResize_def resizeCalls_def)
qed

theorem resize_suppressed_fullscreen_witness:
  "m_fullscreen example_window \<and> renderer_initialized example_window
   \<and> sdl_queue example_window \<noteq> []
   \<and> sdl_size example_window \<noteq> resolution (m_mode example_window)
   \<and> handleEvent (SDL_WINDOWEVENT SDL_WINDOWEVENT_SIZE_CHANGED 960 544) example_window
       = (True, example_window)
   \<and> (\<exists>w'. processEvents True example_window = Some w'
         \<and> m_mode w' = m_mode example_window \<and> resizeNotifications (trace w') = [])
   \<and> resolution (m_mode (updateSize False example_window)) = (960, 544)
   \<and> trace (updateSize False example_window)
       = [(1, ResizeWindow), (2, ResizeWindow), (3, ResizeWindow)]"
proof -
  have h: "m_fullscreen example_window \<and> renderer_initialized example_window
      \<and> sdl_queue example_window \<noteq> []"
    by (simp add: example_window_def)
  have d: "sdl_size example_window \<noteq> resolution (m_mode example_window)"
    by (simp add: example_window_def)
  have v: "sdl_size example_window = (960, 544)" "trace example_window = []"
    "resizeNotifications [] = []"
    "resizeCalls (m_listeners example_window)
       = [(1, ResizeWindow), (2, ResizeWindow), (3, ResizeWindow)]"
    by (simp_all add: example_window_def resizeCalls_def resizeNotifications_def)
  have t: "handleEvent (SDL_WINDOWEVENT SDL_WINDOWEVENT_SIZE_CHANGED 960 544) example_window
       = (True, example_window)
     \<and> (\<exists>w'. processEvents True example_window = Some w'
         \<and> m_mode w' = m_mode example_window
         \<and> resizeNotifications (trace w') = resizeNotifications (trace example_window))
     \<and> resolution (m_mode (updateSize False example_window)) = sdl_size example_window
     \<and> trace (updateSize False example_window)
         = trace example_window @ resizeCalls (m_listeners example_window)"
    using h d resize_suppressed_fullscreen [of example_window 960 544 True]
    by blast
  show ?thesis
    using h d t unfolding v by simp
qed

end
